theory Spec2Isabelle
  imports Main
begin

section \<open>Data model\<close>

text \<open>
  The build platform of \<^verbatim>\<open>@expo/eas-build-job\<close> and the platform of the GraphQL schema.
\<close>

datatype Platform = ANDROID | IOS

datatype AppPlatform = Android | Ios

text \<open>
  \<^verbatim>\<open>BuildStatus\<close>: the six values that \<^verbatim>\<open>waitForBuildEndAsync\<close> switches over. The
  \<^verbatim>\<open>default:\<close> branch of that switch is reached by any other value the server sends;
  \<open>UnknownStatus\<close> carries such a value.
\<close>

datatype BuildStatus =
  New | InQueue | InProgress | Errored | Finished | Canceled | UnknownStatus string

text \<open>A thrown JavaScript \<^verbatim>\<open>Error\<close> with its message.\<close>

datatype error = Error string

fun message :: "error \<Rightarrow> string" where
  "message (Error m) = m"

text \<open>
  \<^verbatim>\<open>BuildFragment\<close>: the fields of a build snapshot that the two modules read. Optional
  fields (\<^verbatim>\<open>string | null | undefined\<close>) are options; \<open>updatedAt\<close> is the time value
  (milliseconds) that \<^verbatim>\<open>new Date(updatedAt)\<close> yields; \<open>initiatingActor\<close> is
  \<^verbatim>\<open>initiatingActor?.displayName\<close>; \<open>error_b\<close> is the error payload.
\<close>

record BuildFragment =
  id_b :: string
  platform_b :: AppPlatform
  status :: BuildStatus
  error_b :: "string option"
  updatedAt :: int
  appVersion :: "string option"
  sdkVersion :: "string option"
  runtimeVersion :: "string option"
  buildProfile :: "string option"
  appBuildVersion :: "string option"
  releaseChannel :: "string option"
  initiatingActor :: "string option"

datatype ArchiveSourceType = ST_url | ST_latest | ST_path | ST_buildId | ST_buildList | ST_prompt

record ArchiveSourceBase =
  platform :: Platform
  projectId :: string
  nonInteractive :: bool

text \<open>
  \<^verbatim>\<open>ArchiveSource\<close> is a union tagged by \<^verbatim>\<open>sourceType\<close>: one constructor per interface,
  each with the common fields and the field of its variant. The spread
  \<^verbatim>\<open>{...source, sourceType: ArchiveSourceType.prompt}\<close> keeps the common fields and changes
  the tag, which here is the step to another constructor over the same base.
\<close>

datatype ArchiveSource =
    ArchiveUrlSource ArchiveSourceBase string
  | ArchiveLatestSource ArchiveSourceBase
  | ArchivePathSource ArchiveSourceBase string
  | ArchiveBuildIdSource ArchiveSourceBase string
  | ArchiveBuildListSource ArchiveSourceBase
  | ArchivePromptSource ArchiveSourceBase

fun sourceType :: "ArchiveSource \<Rightarrow> ArchiveSourceType" where
  "sourceType (ArchiveUrlSource _ _) = ST_url"
| "sourceType (ArchiveLatestSource _) = ST_latest"
| "sourceType (ArchivePathSource _ _) = ST_path"
| "sourceType (ArchiveBuildIdSource _ _) = ST_buildId"
| "sourceType (ArchiveBuildListSource _) = ST_buildList"
| "sourceType (ArchivePromptSource _) = ST_prompt"

record Archive =
  build :: "BuildFragment option"
  source :: ArchiveSource
  url :: "string option"

section \<open>Collaborators of the archive source resolver\<close>

text \<open>
  What \<^verbatim>\<open>ArchiveSource.ts\<close> imports and does not define is a parameter:
  \<^item> \<open>urlProtocol u\<close> is \<^verbatim>\<open>new URL(u).protocol\<close>, \<open>None\<close> when the constructor throws;
  \<^item> \<open>isExistingFileAsync\<close> and \<open>uploadAppArchiveAsync\<close> are \<^verbatim>\<open>./utils/files\<close>;
  \<^item> \<open>byIdAsync\<close> is \<^verbatim>\<open>BuildQuery.byIdAsync\<close>;
  \<^item> \<open>remoteBuilds\<close> is what the build service holds for a platform and a project, or
    the failure of the request;
  \<^item> \<open>clock n\<close> is the \<open>n\<close>-th reading of the system clock (milliseconds);
  \<^item> \<open>offsetChange t\<close> is the UTC offset of the local time zone at the moment \<open>t\<close> minus
    its UTC offset 30 calendar days earlier (0 unless a change of offset lies between);
  \<^item> \<open>appPlatformDisplayNames\<close>, \<open>learnMore\<close> and \<open>toLocaleString\<close> format texts.
\<close>

record env =
  urlProtocol :: "string \<Rightarrow> string option"
  isExistingFileAsync :: "string \<Rightarrow> bool"
  uploadAppArchiveAsync :: "string \<Rightarrow> error + string"
  byIdAsync :: "string \<Rightarrow> error + BuildFragment"
  remoteBuilds :: "AppPlatform \<Rightarrow> string \<Rightarrow> error + BuildFragment list"
  clock :: "nat \<Rightarrow> int"
  offsetChange :: "int \<Rightarrow> int"
  appPlatformDisplayNames :: "AppPlatform \<Rightarrow> string"
  learnMore :: "string \<Rightarrow> string"
  toLocaleString :: "int \<Rightarrow> string"

text \<open>
  The user at the terminal is a script: the replies to the select prompts, to the text
  prompts and to the confirmations, each in the order asked. A reply is an answer or the
  failure of the prompt layer; a select answer is the index of the chosen entry. The
  \<open>trace\<close> records every log line and every question, oldest first.
\<close>

datatype 'a reply = Answer 'a | Fails error

datatype level = LError | LWarn | LLog | LDebug

datatype event = Logged level string | Asked string "(string \<times> bool) list"

record world =
  selects :: "nat reply list"
  texts :: "string reply list"
  confirms :: "bool reply list"
  clockReads :: nat
  trace :: "event list"

text \<open>The result of asking: a value, a thrown error, or no reply ever (the script is over).\<close>

datatype 'a asked = Got 'a | Failed error | NoReply

definition emit :: "event \<Rightarrow> world \<Rightarrow> world" where
  "emit e w = w\<lparr>trace := trace w @ [e]\<rparr>"

definition Log_error :: "string \<Rightarrow> world \<Rightarrow> world" where
  "Log_error m = emit (Logged LError m)"

definition Log_warn :: "string \<Rightarrow> world \<Rightarrow> world" where
  "Log_warn m = emit (Logged LWarn m)"

definition Log_log :: "string \<Rightarrow> world \<Rightarrow> world" where
  "Log_log m = emit (Logged LLog m)"

definition Log_debug :: "string \<Rightarrow> world \<Rightarrow> world" where
  "Log_debug m = emit (Logged LDebug m)"

text \<open>\<^verbatim>\<open>new Date()\<close>: the next reading of the clock.\<close>

definition newDate :: "env \<Rightarrow> world \<Rightarrow> int \<times> world" where
  "newDate env w = (clock env (clockReads w), w\<lparr>clockReads := Suc (clockReads w)\<rparr>)"

record 'v Choice =
  title :: string
  val :: 'v
  disabled :: bool

text \<open>
  \<^verbatim>\<open>promptAsync\<close> with \<^verbatim>\<open>type: 'select'\<close>, as the select of prompts 2.3.2 (the version of
  \<^verbatim>\<open>package.json\<close>) answers: submitting a \<^verbatim>\<open>disabled\<close> entry is refused (the prompt rings
  the bell and goes on waiting), so such an answer is passed over and the next one is read;
  submitting another entry gives its value. An answer that names no entry gives \<open>None\<close>
  (\<^verbatim>\<open>undefined\<close>).
\<close>

fun readSelect :: "'v Choice list \<Rightarrow> nat reply list \<Rightarrow> 'v option asked \<times> nat reply list" where
  "readSelect choices [] = (NoReply, [])"
| "readSelect choices (Fails e # rs) = (Failed e, rs)"
| "readSelect choices (Answer i # rs) =
     (if i < length choices then
        (if disabled (choices ! i) then readSelect choices rs
         else (Got (Some (val (choices ! i))), rs))
      else (Got None, rs))"

definition promptSelect :: "string \<Rightarrow> 'v Choice list \<Rightarrow> world \<Rightarrow> 'v option asked \<times> world" where
  "promptSelect msg choices w =
     (let w1 = emit (Asked msg (map (\<lambda>c. (title c, disabled c)) choices)) w;
          (r, rs) = readSelect choices (selects w1)
      in (r, w1\<lparr>selects := rs\<rparr>))"

text \<open>
  \<^verbatim>\<open>promptAsync\<close> with \<^verbatim>\<open>type: 'text'\<close> and a \<^verbatim>\<open>validate\<close> callback, which returns
  \<^verbatim>\<open>true\<close> (\<open>None\<close>) or a message (\<open>Some\<close>): an entry that does not validate is asked
  again.
\<close>

fun readText :: "(string \<Rightarrow> string option) \<Rightarrow> string reply list \<Rightarrow> string asked \<times> string reply list" where
  "readText validate [] = (NoReply, [])"
| "readText validate (Fails e # rs) = (Failed e, rs)"
| "readText validate (Answer s # rs) =
     (case validate s of None \<Rightarrow> (Got s, rs) | Some _ \<Rightarrow> readText validate rs)"

definition promptText :: "string \<Rightarrow> (string \<Rightarrow> string option) \<Rightarrow> world \<Rightarrow> string asked \<times> world" where
  "promptText msg validate w =
     (let w1 = emit (Asked msg []) w;
          (r, rs) = readText validate (texts w1)
      in (r, w1\<lparr>texts := rs\<rparr>))"

definition confirmAsync :: "string \<Rightarrow> world \<Rightarrow> bool asked \<times> world" where
  "confirmAsync msg w =
     (let w1 = emit (Asked msg []) w
      in case confirms w1 of
           [] \<Rightarrow> (NoReply, w1)
         | Fails e # rs \<Rightarrow> (Failed e, w1\<lparr>confirms := rs\<rparr>)
         | Answer b # rs \<Rightarrow> (Got b, w1\<lparr>confirms := rs\<rparr>))"

text \<open>How many replies the script still holds.\<close>

definition remaining :: "world \<Rightarrow> nat" where
  "remaining w = length (selects w) + length (texts w) + length (confirms w)"

section \<open>The archive source resolver (\<^verbatim>\<open>submit/ArchiveSource.ts\<close>)\<close>

definition BUILD_LIST_ITEM_COUNT :: nat where
  "BUILD_LIST_ITEM_COUNT = 4"

subsection \<open>Identifiers and URLs\<close>

text \<open>
  \<^verbatim>\<open>uuid.validate\<close> and \<^verbatim>\<open>uuid.version\<close> of the uuid package (8.3.2): the string
  matches, ignoring case,
  \<^verbatim>\<open>[0-9a-f]{8}-[0-9a-f]{4}-[1-5][0-9a-f]{3}-[89ab][0-9a-f]{3}-[0-9a-f]{12}\<close>
  or is the nil identifier; its version is the hexadecimal digit at index 14.
\<close>

definition hexDigit :: "char \<Rightarrow> bool" where
  "hexDigit c = (c \<in> set ''0123456789abcdefABCDEF'')"

definition NIL_UUID :: string where
  "NIL_UUID = ''00000000-0000-0000-0000-000000000000''"

definition uuid_validate :: "string \<Rightarrow> bool" where
  "uuid_validate s =
     ((length s = 36
       \<and> list_all hexDigit (take 8 s) \<and> s ! 8 = CHR ''-''
       \<and> list_all hexDigit (take 4 (drop 9 s)) \<and> s ! 13 = CHR ''-''
       \<and> s ! 14 \<in> set ''12345'' \<and> list_all hexDigit (take 3 (drop 15 s)) \<and> s ! 18 = CHR ''-''
       \<and> s ! 19 \<in> set ''89abAB'' \<and> list_all hexDigit (take 3 (drop 20 s)) \<and> s ! 23 = CHR ''-''
       \<and> list_all hexDigit (drop 24 s))
      \<or> s = NIL_UUID)"

definition isUuidV4 :: "string \<Rightarrow> bool" where
  "isUuidV4 s = (uuid_validate s \<and> s ! 14 = CHR ''4'')"

text \<open>
  \<^verbatim>\<open>url.match(/expo\.(dev|io).*\/builds\/(.{36}).*/)\<close>, by the backtracking of a
  JavaScript regular expression: the leftmost \<^verbatim>\<open>expo.dev\<close> or \<^verbatim>\<open>expo.io\<close> from which
  the rest matches; the first \<^verbatim>\<open>.*\<close> takes as many characters as it can (a dot is any
  character but a line terminator) and gives back one at a time. The result is the second
  group, the 36 characters after \<^verbatim>\<open>/builds/\<close>. Strings here are lists of 8-bit
  characters, among which the line terminators are LF and CR.
\<close>

definition lineTerminator :: "char \<Rightarrow> bool" where
  "lineTerminator c = (c = CHR 0x0A \<or> c = CHR 0x0D)"

definition buildsThenId :: "string \<Rightarrow> string option" where
  "buildsThenId s =
     (if take 8 s = ''/builds/'' \<and> 36 \<le> length (drop 8 s)
         \<and> list_all (\<lambda>c. \<not> lineTerminator c) (take 36 (drop 8 s))
      then Some (take 36 (drop 8 s)) else None)"

fun dotStarThen :: "string \<Rightarrow> string option" where
  "dotStarThen [] = buildsThenId []"
| "dotStarThen (c # cs) =
     (if lineTerminator c then buildsThenId (c # cs)
      else case dotStarThen cs of Some g \<Rightarrow> Some g | None \<Rightarrow> buildsThenId (c # cs))"

fun matchBuildDetails :: "string \<Rightarrow> string option" where
  "matchBuildDetails [] = None"
| "matchBuildDetails (c # cs) =
     (case (if take 8 (c # cs) = ''expo.dev'' then dotStarThen (drop 8 (c # cs))
            else if take 7 (c # cs) = ''expo.io'' then dotStarThen (drop 7 (c # cs))
            else None) of
        Some g \<Rightarrow> Some g
      | None \<Rightarrow> matchBuildDetails cs)"

definition isBuildDetailsPage :: "string \<Rightarrow> string option" where
  "isBuildDetailsPage u =
     (case matchBuildDetails u of
        Some maybeBuildId \<Rightarrow> (if isUuidV4 maybeBuildId then Some maybeBuildId else None)
      | None \<Rightarrow> None)"

text \<open>
  \<^verbatim>\<open>validateUrl\<close>: \<^verbatim>\<open>protocols\<close> is a non-empty array, so the outer conditional takes
  its first branch; \<^verbatim>\<open>x.toLowerCase()\<close> leaves \<^verbatim>\<open>http\<close> and \<^verbatim>\<open>https\<close> as they are.
\<close>

definition validateUrl :: "env \<Rightarrow> string \<Rightarrow> bool" where
  "validateUrl env u =
     (let protocols = [''http'', ''https'']
      in case urlProtocol env u of
           None \<Rightarrow> False
         | Some protocol \<Rightarrow>
             (if protocol \<noteq> [] then protocol \<in> set (map (\<lambda>x. x @ '':'') protocols) else False))"

subsection \<open>The remote catalog\<close>

text \<open>
  Modelled from the spec: \<^verbatim>\<open>toAppPlatform\<close> (\<^verbatim>\<open>graphql/types/AppPlatform\<close>) is not among
  the sources; the spec has one notion of platform, so it maps each build platform to the
  catalog's platform of the same name.
\<close>

fun toAppPlatform :: "Platform \<Rightarrow> AppPlatform" where
  "toAppPlatform ANDROID = Android"
| "toAppPlatform IOS = Ios"

text \<open>
  Modelled from the spec: \<^verbatim>\<open>getRecentBuildsForSubmissionAsync\<close> (\<^verbatim>\<open>./utils/builds\<close>) is
  not among the sources. The spec's contract is
  \<^verbatim>\<open>getRecent(platform, projectId, limit?) -> ordered sequence of RemoteJob (newest first)\<close>:
  the builds the service holds for the platform and project, newest first, cut to the
  limit when one is given; a failed request throws.
\<close>

definition newestFirst :: "BuildFragment list \<Rightarrow> BuildFragment list" where
  "newestFirst bs = rev (sort_key updatedAt bs)"

definition getRecentBuildsForSubmissionAsync ::
  "env \<Rightarrow> AppPlatform \<Rightarrow> string \<Rightarrow> nat option \<Rightarrow> error + BuildFragment list" where
  "getRecentBuildsForSubmissionAsync env appPlatform pid limit =
     (case remoteBuilds env appPlatform pid of
        Inl err \<Rightarrow> Inl err
      | Inr bs \<Rightarrow> Inr (case limit of None \<Rightarrow> newestFirst bs | Some n \<Rightarrow> take n (newestFirst bs)))"

subsection \<open>Questions\<close>

definition askForArchiveUrlAsync :: "env \<Rightarrow> world \<Rightarrow> string asked \<times> world" where
  "askForArchiveUrlAsync env w =
     (let defaultArchiveUrl = ''https://url.to/your/archive.aab''
      in promptText ''URL:''
           (\<lambda>u. if u = defaultArchiveUrl
                then Some ''That was just an example URL, meant to show you the format that we expect for the response.''
                else if \<not> validateUrl env u then Some (u @ '' does not conform to HTTP format'')
                else None) w)"

definition askForArchivePathAsync :: "env \<Rightarrow> Platform \<Rightarrow> world \<Rightarrow> string asked \<times> world" where
  "askForArchivePathAsync env pf w =
     (let isIos = (pf = IOS);
          defaultArchivePath = ''/path/to/your/archive.'' @ (if isIos then ''ipa'' else ''aab'')
      in promptText
           (''Path to the app archive file ('' @ (if isIos then ''ipa'' else ''aab or apk'') @ ''):'')
           (\<lambda>p. if p = defaultArchivePath
                then Some ''That was just an example path, meant to show you the format that we expect for the response.''
                else if \<not> isExistingFileAsync env p then Some (''File '' @ p @ '' doesn't exist.'')
                else None) w)"

definition askForBuildIdAsync :: "world \<Rightarrow> string asked \<times> world" where
  "askForBuildIdAsync w =
     promptText ''Build ID:''
       (\<lambda>v. if \<not> isUuidV4 v then Some (v @ '' is not a valid ID'') else None) w"

definition askIfUseBuildIdFromUrlAsync ::
  "ArchiveSourceBase \<Rightarrow> string \<Rightarrow> string \<Rightarrow> world \<Rightarrow> bool asked \<times> world" where
  "askIfUseBuildIdFromUrlAsync base u buildId w =
     (let w1 = Log_warn (''It seems that you provided a build details page URL: '' @ u) w;
          w2 = Log_warn ''We expected to see the build artifact URL.'' w1
      in if \<not> nonInteractive base then
           (case confirmAsync (''Do you want to submit build '' @ buildId @ '' instead?'') w2 of
              (Got useAsBuildId, w3) \<Rightarrow>
                (if useAsBuildId then (Got True, w3)
                 else (Got False, Log_warn ''The submission will most probably fail.'' w3))
            | (Failed e, w3) \<Rightarrow> (Failed e, w3)
            | (NoReply, w3) \<Rightarrow> (NoReply, w3))
         else (Got False,
               Log_warn ''Proceeding because you've run this command in non-interactive mode.'' w2))"

subsection \<open>The handlers\<close>

text \<open>
  Every recursive call of the module is \<^verbatim>\<open>return getArchiveAsync({...})\<close>: a tail call
  whose promise is returned without \<^verbatim>\<open>await\<close>, so no surrounding \<^verbatim>\<open>catch\<close> sees its
  rejection and the handler's outcome is the outcome of that call. A handler therefore
  yields a step: \<open>Done\<close> with what it returns or throws, \<open>Recurse\<close> with the source it
  passes to \<^verbatim>\<open>getArchiveAsync\<close>, or \<open>Suspend\<close> when a prompt never gets its reply.
\<close>

datatype step = Done "error + Archive" | Recurse ArchiveSource | Suspend

definition handleUrlSourceAsync :: "env \<Rightarrow> ArchiveSourceBase \<Rightarrow> string \<Rightarrow> world \<Rightarrow> step \<times> world" where
  "handleUrlSourceAsync env base u w =
     (if \<not> validateUrl env u then
        (Recurse (ArchivePromptSource base),
         Log_error (''The URL you provided is invalid: '' @ u) w)
      else
        case isBuildDetailsPage u of
          Some maybeBuildId \<Rightarrow>
            (case askIfUseBuildIdFromUrlAsync base u maybeBuildId w of
               (Got True, w1) \<Rightarrow> (Recurse (ArchiveBuildIdSource base maybeBuildId), w1)
             | (Got False, w1) \<Rightarrow>
                 (Done (Inr \<lparr>build = None, source = ArchiveUrlSource base u, url = Some u\<rparr>), w1)
             | (Failed e, w1) \<Rightarrow> (Done (Inl e), w1)
             | (NoReply, w1) \<Rightarrow> (Suspend, w1))
        | None \<Rightarrow>
            (Done (Inr \<lparr>build = None, source = ArchiveUrlSource base u, url = Some u\<rparr>), w))"

definition handleLatestSourceAsync :: "env \<Rightarrow> ArchiveSourceBase \<Rightarrow> world \<Rightarrow> step \<times> world" where
  "handleLatestSourceAsync env base w =
     (case getRecentBuildsForSubmissionAsync env (toAppPlatform (platform base)) (projectId base) None of
        Inl err \<Rightarrow> (Done (Inl err), Log_error (message err) w)
      | Inr [] \<Rightarrow>
          (Recurse (ArchivePromptSource base),
           Log_error ''Couldn't find any builds for this project on EAS servers. It looks like you haven't run 'eas build' yet.'' w)
      | Inr (latestBuild # _) \<Rightarrow>
          (Done (Inr \<lparr>build = Some latestBuild, source = ArchiveLatestSource base, url = None\<rparr>), w))"

definition handlePathSourceAsync :: "env \<Rightarrow> ArchiveSourceBase \<Rightarrow> string \<Rightarrow> world \<Rightarrow> step \<times> world" where
  "handlePathSourceAsync env base p w =
     (if \<not> isExistingFileAsync env p then
        (Recurse (ArchivePromptSource base), Log_error (p @ '' doesn't exist'') w)
      else
        let w1 = Log_log ''Uploading your app archive to the Expo Submission Service'' w
        in case uploadAppArchiveAsync env p of
             Inl err \<Rightarrow> (Done (Inl err), w1)
           | Inr uploadUrl \<Rightarrow>
               (Done (Inr \<lparr>build = None, source = ArchivePathSource base p, url = Some uploadUrl\<rparr>), w1))"

definition handleBuildIdSourceAsync :: "env \<Rightarrow> ArchiveSourceBase \<Rightarrow> string \<Rightarrow> world \<Rightarrow> step \<times> world" where
  "handleBuildIdSourceAsync env base i w =
     (case byIdAsync env i of
        Inr b \<Rightarrow>
          (if platform_b b \<noteq> toAppPlatform (platform base) then
             let expectedPlatformName = appPlatformDisplayNames env (toAppPlatform (platform base));
                 receivedPlatformName = appPlatformDisplayNames env (platform_b b)
             in (Recurse (ArchivePromptSource base),
                 Log_error (''Build platform doesn't match! Expected '' @ expectedPlatformName
                            @ '' build but got '' @ receivedPlatformName @ ''.'') w)
           else
             (Done (Inr \<lparr>build = Some b, source = ArchiveBuildIdSource base i, url = None\<rparr>), w))
      | Inl err \<Rightarrow>
          (let w1 = Log_error (''Could not find build with ID '' @ i) w;
               w2 = Log_warn ''Are you sure that the given ID corresponds to a build from EAS Build?'' w1;
               w3 = Log_warn (''Build IDs from the classic build service (expo build:[android|ios]) are not supported. ''
                              @ learnMore env ''https://docs.expo.dev/submit/classic-builds/'') w2;
               w4 = Log_debug (''Original error: '' @ message err) w3
           in (Recurse (ArchivePromptSource base), w4)))"

text \<open>
  \<^verbatim>\<open>formatBuildChoice\<close>. A field is shown when it is truthy (present and not empty); the
  styling of \<^verbatim>\<open>chalk\<close> adds no text and is left out.
\<close>

definition truthy :: "string option \<Rightarrow> bool" where
  "truthy field = (case field of Some f \<Rightarrow> f \<noteq> [] | None \<Rightarrow> False)"

definition formatValue :: "string option \<Rightarrow> string" where
  "formatValue field = (if truthy field then the field else ''Unknown'')"

fun join :: "string \<Rightarrow> string list \<Rightarrow> string" where
  "join sep [] = []"
| "join sep [x] = x"
| "join sep (x # y # ys) = x @ sep @ join sep (y # ys)"

definition formatBuildChoice :: "env \<Rightarrow> BuildFragment \<Rightarrow> int \<Rightarrow> BuildFragment option Choice" where
  "formatBuildChoice env b expiryDate =
     (let buildDate = updatedAt b;
          maybeRuntimeVersion =
            (if truthy (runtimeVersion b) then Some (''Runtime: '' @ formatValue (runtimeVersion b)) else None);
          maybeSdkVersion =
            (if truthy (sdkVersion b) then Some (''SDK: '' @ formatValue (sdkVersion b)) else None);
          appBuildVersionString =
            (if platform_b b = Android then ''Version code'' else ''Build number'')
            @ '': '' @ formatValue (appBuildVersion b);
          ttl = join [CHR 0x0A]
            [''ID: '' @ id_b b @ '', Finished at: '' @ toLocaleString env buildDate,
             join '', ''
               (map the (filter (\<lambda>it. it \<noteq> None)
                  [Some ([CHR 0x09] @ ''App version: '' @ formatValue (appVersion b) @ '', '' @ appBuildVersionString),
                   maybeRuntimeVersion, maybeSdkVersion])),
             [CHR 0x09] @ ''Profile: '' @ formatValue (buildProfile b)
               @ '', Release channel: '' @ formatValue (releaseChannel b),
             [CHR 0x09] @ ''Authored by: '' @ formatValue (initiatingActor b)]
      in \<lparr>title = ttl, val = Some b, disabled = (buildDate < expiryDate)\<rparr>)"

text \<open>
  \<^verbatim>\<open>expiryDate.setDate(expiryDate.getDate() - 30)\<close> moves the local calendar date back by
  30 days and keeps the local time of day: 30 days of 86 400 000 ms, corrected by the
  change of the UTC offset of the local time zone between the two days.
\<close>

definition expiryDateOf :: "env \<Rightarrow> int \<Rightarrow> int" where
  "expiryDateOf env nowMs = nowMs - 30 * 86400000 + offsetChange env nowMs"

definition noneOfTheAbove :: "BuildFragment option Choice" where
  "noneOfTheAbove = \<lparr>title = ''None of the above (select another option)'', val = None, disabled = False\<rparr>"

definition buildChoices :: "env \<Rightarrow> BuildFragment list \<Rightarrow> int \<Rightarrow> BuildFragment option Choice list" where
  "buildChoices env recentBuilds expiryDate =
     map (\<lambda>b. formatBuildChoice env b expiryDate) recentBuilds @ [noneOfTheAbove]"

text \<open>
  \<^verbatim>\<open>handleBuildListSourceAsync\<close>. The whole body is inside \<^verbatim>\<open>try\<close>: an error of the
  fetch or of the prompt is logged and thrown again. An entry of the prompt is
  \<^verbatim>\<open>disabled\<close> when its build is older than the expiry date; the prompt shows the text
  \<^verbatim>\<open>This artifact has expired\<close> on such an entry. The answer is compared with
  \<^verbatim>\<open>== null\<close>, which holds for \<^verbatim>\<open>null\<close> (the last entry) and for \<^verbatim>\<open>undefined\<close>.
\<close>

definition handleBuildListSourceAsync :: "env \<Rightarrow> ArchiveSourceBase \<Rightarrow> world \<Rightarrow> step \<times> world" where
  "handleBuildListSourceAsync env base w =
     (let appPlatform = toAppPlatform (platform base);
          (nowMs, w0) = newDate env w;
          expiryDate = expiryDateOf env nowMs
      in case getRecentBuildsForSubmissionAsync env appPlatform (projectId base) (Some BUILD_LIST_ITEM_COUNT) of
           Inl err \<Rightarrow> (Done (Inl err), Log_error (message err) w0)
         | Inr recentBuilds \<Rightarrow>
             if length recentBuilds < 1 then
               (Recurse (ArchivePromptSource base),
                Log_error (''Couldn't find any '' @ appPlatformDisplayNames env appPlatform
                           @ '' builds for this project on EAS servers. ''
                           @ ''It looks like you haven't run 'eas build' yet.'') w0)
             else if list_all (\<lambda>it. updatedAt it < expiryDate) recentBuilds then
               (Recurse (ArchivePromptSource base),
                Log_error (''It looks like all of your build artifacts have expired. ''
                           @ ''EAS keeps your build artifacts only for 30 days.'') w0)
             else
               (let choices = buildChoices env recentBuilds expiryDate
                in (case promptSelect ''Which build would you like to submit?''
                          (map (\<lambda>choice. choice\<lparr>title := ''- '' @ title choice\<rparr>) choices) w0 of
                      (Got (Some (Some selectedBuild)), w1) \<Rightarrow>
                        (Done (Inr \<lparr>build = Some selectedBuild, source = ArchiveBuildListSource base, url = None\<rparr>), w1)
                    | (Got _, w1) \<Rightarrow> (Recurse (ArchivePromptSource base), w1)
                    | (Failed err, w1) \<Rightarrow> (Done (Inl err), Log_error (message err) w1)
                    | (NoReply, w1) \<Rightarrow> (Suspend, w1))))"

definition sourceTypeChoices :: "ArchiveSourceType Choice list" where
  "sourceTypeChoices =
     [\<lparr>title = ''Select a build from EAS'', val = ST_buildList, disabled = False\<rparr>,
      \<lparr>title = ''Provide a URL to the app archive'', val = ST_url, disabled = False\<rparr>,
      \<lparr>title = ''Provide a path to a local app binary file'', val = ST_path, disabled = False\<rparr>,
      \<lparr>title = ''Provide a build ID to identify a build on EAS'', val = ST_buildId, disabled = False\<rparr>]"

definition asStep :: "string asked \<times> world \<Rightarrow> (string \<Rightarrow> ArchiveSource) \<Rightarrow> step \<times> world" where
  "asStep r mk =
     (case r of
        (Got x, w1) \<Rightarrow> (Recurse (mk x), w1)
      | (Failed e, w1) \<Rightarrow> (Done (Inl e), w1)
      | (NoReply, w1) \<Rightarrow> (Suspend, w1))"

definition handlePromptSourceAsync :: "env \<Rightarrow> ArchiveSourceBase \<Rightarrow> world \<Rightarrow> step \<times> world" where
  "handlePromptSourceAsync env base w =
     (case promptSelect ''What would you like to submit?'' sourceTypeChoices w of
        (Got sourceTypeRaw, w1) \<Rightarrow>
          (case sourceTypeRaw of
             Some ST_url \<Rightarrow> asStep (askForArchiveUrlAsync env w1) (ArchiveUrlSource base)
           | Some ST_path \<Rightarrow> asStep (askForArchivePathAsync env (platform base) w1) (ArchivePathSource base)
           | Some ST_buildList \<Rightarrow> (Recurse (ArchiveBuildListSource base), w1)
           | Some ST_buildId \<Rightarrow> asStep (askForBuildIdAsync w1) (ArchiveBuildIdSource base)
           | _ \<Rightarrow> (Done (Inl (Error ''This should never happen'')), w1))
      | (Failed e, w1) \<Rightarrow> (Done (Inl e), w1)
      | (NoReply, w1) \<Rightarrow> (Suspend, w1))"

text \<open>The \<^verbatim>\<open>switch (source.sourceType)\<close> of \<^verbatim>\<open>getArchiveAsync\<close>.\<close>

fun dispatch :: "env \<Rightarrow> ArchiveSource \<Rightarrow> world \<Rightarrow> step \<times> world" where
  "dispatch env (ArchivePromptSource base) w = handlePromptSourceAsync env base w"
| "dispatch env (ArchiveUrlSource base u) w = handleUrlSourceAsync env base u w"
| "dispatch env (ArchiveLatestSource base) w = handleLatestSourceAsync env base w"
| "dispatch env (ArchivePathSource base p) w = handlePathSourceAsync env base p w"
| "dispatch env (ArchiveBuildIdSource base i) w = handleBuildIdSourceAsync env base i w"
| "dispatch env (ArchiveBuildListSource base) w = handleBuildListSourceAsync env base w"

subsection \<open>\<^verbatim>\<open>getArchiveAsync\<close>\<close>

lemma remaining_emit [simp]: "remaining (emit e w) = remaining w"
  by (simp add: remaining_def emit_def)

lemma remaining_Log [simp]:
  "remaining (Log_error m w) = remaining w" "remaining (Log_warn m w) = remaining w"
  "remaining (Log_log m w) = remaining w" "remaining (Log_debug m w) = remaining w"
  by (simp_all add: Log_error_def Log_warn_def Log_log_def Log_debug_def)

lemma remaining_newDate [simp]: "remaining (snd (newDate env w)) = remaining w"
  by (simp add: newDate_def remaining_def)

lemma readText_Got: "readText v rs = (Got x, rs') \<Longrightarrow> length rs' < length rs"
  by (induction v rs arbitrary: x rs' rule: readText.induct) (auto split: option.splits intro: less_SucI)

lemma promptText_Got: "promptText m v w = (Got x, w') \<Longrightarrow> remaining w' < remaining w"
  by (auto simp: promptText_def Let_def remaining_def emit_def split: prod.splits dest!: readText_Got)

lemma readSelect_Got: "readSelect cs rs = (Got x, rs') \<Longrightarrow> length rs' < length rs"
  by (induction cs rs arbitrary: x rs' rule: readSelect.induct) (auto split: if_splits intro: less_SucI)

lemma promptSelect_Got: "promptSelect m cs w = (Got x, w') \<Longrightarrow> remaining w' < remaining w"
  by (auto simp: promptSelect_def Let_def remaining_def emit_def split: prod.splits dest!: readSelect_Got)

lemma confirmAsync_Got: "confirmAsync m w = (Got x, w') \<Longrightarrow> remaining w' < remaining w"
  by (auto simp: confirmAsync_def Let_def remaining_def emit_def split: list.splits reply.splits)

lemma askIf_True:
  "askIfUseBuildIdFromUrlAsync base u i w = (Got True, w') \<Longrightarrow> remaining w' < remaining w"
  by (auto simp: askIfUseBuildIdFromUrlAsync_def Let_def split: if_splits prod.splits asked.splits
           dest!: confirmAsync_Got)

lemma asStep_Recurse:
  "asStep p mk = (Recurse s, w') \<Longrightarrow> \<exists>x. p = (Got x, w')"
  by (auto simp: asStep_def split: prod.splits asked.splits)

text \<open>
  The measure of the recursion: a call on a prompt source consumes a reply before it
  recurses; a call on another source recurses on a prompt source, or consumes a reply.
\<close>

definition rank :: "ArchiveSource \<Rightarrow> nat" where
  "rank src = (if sourceType src = ST_prompt then 0 else 1)"

lemma rank_simps [simp]:
  "rank (ArchivePromptSource b) = 0" "rank (ArchiveUrlSource b u) = 1"
  "rank (ArchiveLatestSource b) = 1" "rank (ArchivePathSource b p) = 1"
  "rank (ArchiveBuildIdSource b i) = 1" "rank (ArchiveBuildListSource b) = 1"
  by (simp_all add: rank_def)

lemma url_Recurse:
  "handleUrlSourceAsync env base u w = (Recurse s, w') \<Longrightarrow>
     2 * remaining w' + rank s < 2 * remaining w + 1"
  by (auto simp: handleUrlSourceAsync_def rank_def split: if_splits option.splits prod.splits asked.splits bool.splits
           dest!: askIf_True)

lemma latest_Recurse:
  "handleLatestSourceAsync env base w = (Recurse s, w') \<Longrightarrow>
     2 * remaining w' + rank s < 2 * remaining w + 1"
  by (auto simp: handleLatestSourceAsync_def rank_def split: sum.splits list.splits)

lemma path_Recurse:
  "handlePathSourceAsync env base p w = (Recurse s, w') \<Longrightarrow>
     2 * remaining w' + rank s < 2 * remaining w + 1"
  by (auto simp: handlePathSourceAsync_def rank_def Let_def split: if_splits sum.splits)

lemma buildId_Recurse:
  "handleBuildIdSourceAsync env base i w = (Recurse s, w') \<Longrightarrow>
     2 * remaining w' + rank s < 2 * remaining w + 1"
  by (auto simp: handleBuildIdSourceAsync_def rank_def Let_def split: if_splits sum.splits)



lemma buildList_Recurse:
  assumes "handleBuildListSourceAsync env base w = (Recurse s, w')"
  shows "2 * remaining w' + rank s < 2 * remaining w + 1"
proof -
  obtain nowMs w0 where nd: "newDate env w = (nowMs, w0)" by force
  have r0: "remaining w0 = remaining w" using nd remaining_newDate[of env w] by simp
  show ?thesis
  proof (cases "getRecentBuildsForSubmissionAsync env (toAppPlatform (platform base)) (projectId base) (Some BUILD_LIST_ITEM_COUNT)")
    case (Inl err)
    with assms nd show ?thesis by (simp add: handleBuildListSourceAsync_def)
  next
    case (Inr bs)
    show ?thesis
    proof (cases "length bs < 1 \<or> list_all (\<lambda>it. updatedAt it < expiryDateOf env nowMs) bs")
      case True
      with assms nd Inr r0 show ?thesis
        by (auto simp: handleBuildListSourceAsync_def Let_def rank_def split: if_splits)
    next
      case False
      obtain r w1 where ps: "promptSelect ''Which build would you like to submit?''
            (map (\<lambda>choice. choice\<lparr>title := ''- '' @ title choice\<rparr>) (buildChoices env bs (expiryDateOf env nowMs))) w0 = (r, w1)"
        by force
      from assms nd Inr False ps have "\<exists>x. r = Got x" "w' = w1" "s = ArchivePromptSource base"
        by (auto simp: handleBuildListSourceAsync_def Let_def split: asked.splits option.splits)
      with ps r0 promptSelect_Got show ?thesis by (fastforce simp: rank_def)
    qed
  qed
qed


lemma prompt_Recurse:
  assumes "handlePromptSourceAsync env base w = (Recurse s, w')"
  shows "2 * remaining w' + rank s < 2 * remaining w"
proof -
  obtain r w1 where ps: "promptSelect ''What would you like to submit?'' sourceTypeChoices w = (r, w1)"
    by force
  from assms ps obtain x where x: "r = Got x"
    by (cases r) (auto simp: handlePromptSourceAsync_def)
  with ps have lt: "remaining w1 < remaining w" by (auto dest: promptSelect_Got)
  from assms ps x have "remaining w' \<le> remaining w1"
    by (auto simp: handlePromptSourceAsync_def askForArchiveUrlAsync_def askForArchivePathAsync_def
          askForBuildIdAsync_def Let_def
        split: option.splits ArchiveSourceType.splits
        dest!: asStep_Recurse promptText_Got)
  with lt show ?thesis by (simp add: rank_def)
qed

lemma dispatch_Recurse:
  assumes "dispatch env src w = (Recurse s, w')"
  shows "2 * remaining w' + rank s < 2 * remaining w + rank src"
proof (cases src)
  case (ArchivePromptSource base)
  with assms prompt_Recurse[of env base w s w'] show ?thesis by simp
next
  case (ArchiveUrlSource base u)
  with assms url_Recurse[of env base u w s w'] show ?thesis by simp
next
  case (ArchiveLatestSource base)
  with assms latest_Recurse[of env base w s w'] show ?thesis by simp
next
  case (ArchivePathSource base p)
  with assms path_Recurse[of env base p w s w'] show ?thesis by simp
next
  case (ArchiveBuildIdSource base i)
  with assms buildId_Recurse[of env base i w s w'] show ?thesis by simp
next
  case (ArchiveBuildListSource base)
  with assms buildList_Recurse[of env base w s w'] show ?thesis by simp
qed

text \<open>
  \<^verbatim>\<open>getArchiveAsync\<close>: \<open>None\<close> is a run that stays at a prompt for ever; otherwise the
  value returned or the error thrown, and the world left behind.
\<close>

function getArchiveAsync :: "env \<Rightarrow> ArchiveSource \<Rightarrow> world \<Rightarrow> ((error + Archive) \<times> world) option" where
  "getArchiveAsync env src w =
     (case dispatch env src w of
        (Done r, w') \<Rightarrow> Some (r, w')
      | (Recurse src', w') \<Rightarrow> getArchiveAsync env src' w'
      | (Suspend, w') \<Rightarrow> None)"
  by pat_completeness auto
termination
  by (relation "measure (\<lambda>(env, src, w). 2 * remaining w + rank src)")
     (auto dest: dispatch_Recurse [OF sym])

declare getArchiveAsync.simps [simp del]

section \<open>Completion tracking (\<^verbatim>\<open>waitForBuildEndAsync\<close> of \<^verbatim>\<open>build/build.ts\<close>)\<close>

text \<open>
  The build service as the loop sees it: \<open>fetchBuild n i\<close> is what
  \<^verbatim>\<open>BuildQuery.byIdAsync(i, { useCache: false })\<close> gives in the \<open>n\<close>-th tick (ticks count
  from 0), a snapshot or a thrown error, and \<open>fetchMs n\<close> is the time in milliseconds that
  the \<^verbatim>\<open>Promise.all\<close> of that tick takes.
\<close>

record service =
  fetchBuild :: "nat \<Rightarrow> string \<Rightarrow> error + BuildFragment"
  fetchMs :: "nat \<Rightarrow> nat"

text \<open>
  The state the loop works on: the system clock, the number of ticks made, the text of the
  spinner, the lines the spinner has persisted and the lines logged.
\<close>

datatype spinner_call = Succeed string | Fail string | Warn string | StopAndPersist string

record tracker =
  nowMs :: int
  ticks :: nat
  spinnerText :: string
  calls :: "spinner_call list"
  logs :: "event list"

definition spinner_call :: "spinner_call \<Rightarrow> tracker \<Rightarrow> tracker" where
  "spinner_call c st = st\<lparr>calls := calls st @ [c]\<rparr>"

definition logLine :: "level \<Rightarrow> string \<Rightarrow> tracker \<Rightarrow> tracker" where
  "logLine l m st = st\<lparr>logs := logs st @ [Logged l m]\<rparr>"

text \<open>
  Modelled from the spec: \<^verbatim>\<open>sleepAsync\<close> (\<^verbatim>\<open>utils/promise\<close>) is not among the sources. The
  spec has the loop sleep \<^verbatim>\<open>intervalSec\<close> between two ticks: the clock moves on by the
  duration asked for, and not at all for a negative one.
\<close>

definition sleepAsync :: "int \<Rightarrow> tracker \<Rightarrow> tracker" where
  "sleepAsync ms st = st\<lparr>nowMs := nowMs st + max 0 ms\<rparr>"

text \<open>
  One slot of \<^verbatim>\<open>builds\<close>: the snapshot, or \<^verbatim>\<open>null\<close> when the fetch threw (the
  \<^verbatim>\<open>catch\<close> logs at debug level and returns \<^verbatim>\<open>null\<close>).
\<close>

definition snapshot :: "service \<Rightarrow> nat \<Rightarrow> string \<Rightarrow> BuildFragment option" where
  "snapshot sv n buildId = (case fetchBuild sv n buildId of Inl err \<Rightarrow> None | Inr b \<Rightarrow> Some b)"

definition fetchFailures :: "service \<Rightarrow> nat \<Rightarrow> string list \<Rightarrow> event list" where
  "fetchFailures sv n buildIds =
     concat (map (\<lambda>buildId. case fetchBuild sv n buildId of
                     Inl err \<Rightarrow> [Logged LDebug (''Failed to fetch the build status '' @ message err)]
                   | Inr b \<Rightarrow> []) buildIds)"

definition fetchAll :: "service \<Rightarrow> string list \<Rightarrow> tracker \<Rightarrow> BuildFragment option list \<times> tracker" where
  "fetchAll sv buildIds st =
     (map (snapshot sv (ticks st)) buildIds,
      st\<lparr>nowMs := nowMs st + int (fetchMs sv (ticks st)),
         ticks := Suc (ticks st),
         logs := logs st @ fetchFailures sv (ticks st) buildIds\<rparr>)"

text \<open>What the body of the loop does after the fetch: return, throw, or go on.\<close>

datatype verdict = Return "BuildFragment option list" | Throw error | Continue

text \<open>The branch \<^verbatim>\<open>builds.length === 1\<close>.\<close>

definition single :: "BuildFragment option \<Rightarrow> tracker \<Rightarrow> verdict \<times> tracker" where
  "single b st =
     (case b of
        Some snap \<Rightarrow>
          (case status snap of
             Finished \<Rightarrow> (Return [b], spinner_call (Succeed ''Build finished'') st)
           | New \<Rightarrow> (Continue, st\<lparr>spinnerText := ''Build created''\<rparr>)
           | InQueue \<Rightarrow> (Continue, st\<lparr>spinnerText := ''Build queued...''\<rparr>)
           | Canceled \<Rightarrow>
               (Return [b],
                spinner_call (StopAndPersist ''Build canceled'') (st\<lparr>spinnerText := ''Build canceled''\<rparr>))
           | InProgress \<Rightarrow> (Continue, st\<lparr>spinnerText := ''Build in progress...''\<rparr>)
           | Errored \<Rightarrow>
               (if error_b snap \<noteq> None
                then (Return [b], spinner_call (Fail ''Build failed'') st)
                else (Throw (Error ''Standalone build failed!''), spinner_call (Fail ''Build failed'') st))
           | UnknownStatus s \<Rightarrow>
               (Throw (Error (''Unknown build status: '' @ s @ '' - aborting!'')),
                spinner_call (Warn ''Unknown status'') st))
      | None \<Rightarrow>
          (Continue,
           if spinnerText st = [] then
             st\<lparr>spinnerText := ''Could not fetch the build status. Check your network connection.''\<rparr>
           else st))"

text \<open>
  The other branch: the counts by status and the text built from them. The statuses
  counted are disjoint, so the subtractions of \<open>unknown\<close> never go below zero; as in the
  source, the canceled builds are not subtracted. An entry of the text is left out when
  its count is 0.
\<close>

definition countStatus :: "BuildStatus \<Rightarrow> BuildFragment option list \<Rightarrow> nat" where
  "countStatus s builds =
     length (filter (\<lambda>b. case b of Some snap \<Rightarrow> status snap = s | None \<Rightarrow> False) builds)"

definition endedSlot :: "BuildFragment option \<Rightarrow> bool" where
  "endedSlot b =
     (case b of
        Some snap \<Rightarrow> status snap = Finished \<or> status snap = Errored \<or> status snap = Canceled
      | None \<Rightarrow> False)"

fun showNat :: "nat \<Rightarrow> string" where
  "showNat n =
     (if n < 10 then [char_of (48 + n)] else showNat (n div 10) @ [char_of (48 + n mod 10)])"

declare showNat.simps [simp del]

definition counted :: "nat \<Rightarrow> string \<Rightarrow> string option" where
  "counted n label = (if n = 0 then None else Some (label @ showNat n))"

definition statusText :: "BuildFragment option list \<Rightarrow> string" where
  "statusText builds =
     (let newBuilds = countStatus New builds;
          inQueue = countStatus InQueue builds;
          inProgress = countStatus InProgress builds;
          errored = countStatus Errored builds;
          finished = countStatus Finished builds;
          canceled = countStatus Canceled builds;
          unknown = length builds - newBuilds - inQueue - inProgress - errored - finished
      in join [CHR 0x09]
           (map the (filter (\<lambda>i. i \<noteq> None)
              [counted newBuilds ''Builds created: '',
               counted inQueue ''Builds in queue: '',
               counted inProgress ''Builds in progress: '',
               counted canceled ''Builds canceled: '',
               counted errored ''Builds failed: '',
               counted finished ''Builds finished: '',
               counted unknown ''Builds with unknown status: ''])))"

definition multiple :: "BuildFragment option list \<Rightarrow> tracker \<Rightarrow> verdict \<times> tracker" where
  "multiple builds st =
     (if countStatus Finished builds = length builds then
        (Return builds, spinner_call (Succeed ''All builds have finished'') st)
      else if length (filter endedSlot builds) = length builds then
        (Return builds, spinner_call (Fail ''Some of the builds were canceled or failed.'') st)
      else (Continue, st\<lparr>spinnerText := statusText builds\<rparr>))"

definition decide :: "BuildFragment option list \<Rightarrow> tracker \<Rightarrow> verdict \<times> tracker" where
  "decide builds st = (case builds of [b] \<Rightarrow> single b st | _ \<Rightarrow> multiple builds st)"

definition TIMEOUT :: error where
  "TIMEOUT = Error ''Timeout reached! It is taking longer than expected to finish the build, aborting...''"

text \<open>
  The \<^verbatim>\<open>while (time <= endTime)\<close> loop. \<open>time\<close> is the loop's variable of that name: the
  clock as read at the end of the tick before, ahead of the sleep. \<open>None\<close> is a loop that
  never ends. \<^verbatim>\<open>timeoutSec\<close> and \<^verbatim>\<open>intervalSec\<close> are whole seconds; the defaults of the
  source are 3600 and 30.
\<close>

partial_function (option) waitLoop ::
  "service \<Rightarrow> string list \<Rightarrow> int \<Rightarrow> int \<Rightarrow> int \<Rightarrow> tracker
     \<Rightarrow> ((error + BuildFragment option list) \<times> tracker) option" where
  "waitLoop sv buildIds intervalSec endTime time st =
     (if time \<le> endTime then
        (case decide (fst (fetchAll sv buildIds st)) (snd (fetchAll sv buildIds st)) of
           (Return builds, st2) \<Rightarrow> Some (Inr builds, st2)
         | (Throw e, st2) \<Rightarrow> Some (Inl e, st2)
         | (Continue, st2) \<Rightarrow>
             waitLoop sv buildIds intervalSec endTime (nowMs st2) (sleepAsync (intervalSec * 1000) st2))
      else Some (Inl TIMEOUT, spinner_call (Warn ''Timed out'') st))"

definition waitForBuildEndAsync ::
  "service \<Rightarrow> string list \<Rightarrow> int \<Rightarrow> int \<Rightarrow> tracker
     \<Rightarrow> ((error + BuildFragment option list) \<times> tracker) option" where
  "waitForBuildEndAsync sv buildIds timeoutSec intervalSec st =
     (let st0 = logLine LLog (''Waiting for build'' @ (if length buildIds > 1 then ''s'' else '''')
                              @ '' to complete. You can press Ctrl+C to exit.'') st;
          time = nowMs st0;
          endTime = time + timeoutSec * 1000
      in waitLoop sv buildIds intervalSec endTime time st0)"

section \<open>The project upload (\<^verbatim>\<open>uploadProjectAsync\<close> of \<^verbatim>\<open>build/build.ts\<close>)\<close>

text \<open>
  The collaborators of the step are parameters: \<open>makeProjectTarballAsync\<close>
  (\<^verbatim>\<open>./utils/repository\<close>) works on the files of the temporary directory and returns the
  tarball's path and size, or throws; \<open>uploadAsync\<close> (\<^verbatim>\<open>../uploads\<close>) returns the bucket key
  for a path, or throws.
\<close>

record Tarball =
  path :: string
  size_t :: nat

record uploader =
  makeProjectTarballAsync :: "string set \<Rightarrow> (error + Tarball) \<times> string set"
  uploadAsync :: "string \<Rightarrow> error + string"

datatype BuildEvent = PROJECT_UPLOAD_ATTEMPT | PROJECT_UPLOAD_SUCCESS | PROJECT_UPLOAD_FAIL

text \<open>
  The state of the step: the files of the temporary directory, the analytics events sent,
  and the local variable \<^verbatim>\<open>projectTarballPath\<close> (\<open>None\<close> is \<^verbatim>\<open>undefined\<close>), which the
  inner function assigns and the \<^verbatim>\<open>finally\<close> block reads.
\<close>

record upload_state =
  tmpFiles :: "string set"
  analytics :: "BuildEvent list"
  projectTarballPath :: "string option"

definition logEvent :: "BuildEvent \<Rightarrow> upload_state \<Rightarrow> upload_state" where
  "logEvent e d = d\<lparr>analytics := analytics d @ [e]\<rparr>"

text \<open>
  Modelled from the spec: \<^verbatim>\<open>withAnalyticsAsync\<close> (\<^verbatim>\<open>../analytics/common\<close>) is not among
  the sources. The spec has analytics as an outside collaborator that observes the steps:
  the wrapper reports the attempt, runs the action, reports its success or its failure and
  passes the result or the error on.
\<close>

definition withAnalyticsAsync ::
  "(upload_state \<Rightarrow> (error + 'a) \<times> upload_state) \<Rightarrow> BuildEvent \<Rightarrow> BuildEvent \<Rightarrow> BuildEvent
     \<Rightarrow> upload_state \<Rightarrow> (error + 'a) \<times> upload_state" where
  "withAnalyticsAsync fn attemptEvent successEvent failureEvent d =
     (case fn (logEvent attemptEvent d) of
        (Inr x, d1) \<Rightarrow> (Inr x, logEvent successEvent d1)
      | (Inl e, d1) \<Rightarrow> (Inl e, logEvent failureEvent d1))"

text \<open>\<^verbatim>\<open>fs.remove\<close> of fs-extra: the file is gone afterwards; a missing file is no error.\<close>

definition fs_remove :: "string \<Rightarrow> upload_state \<Rightarrow> upload_state" where
  "fs_remove p d = d\<lparr>tmpFiles := tmpFiles d - {p}\<rparr>"

text \<open>
  \<^verbatim>\<open>uploadProjectAsync\<close>: the \<^verbatim>\<open>try\<close> block is the wrapped inner function; the
  \<^verbatim>\<open>finally\<close> block runs on its result and on its error alike, and removes the file when
  \<^verbatim>\<open>projectTarballPath\<close> is truthy (assigned and not the empty string).
\<close>

definition uploadInner :: "uploader \<Rightarrow> upload_state \<Rightarrow> (error + string) \<times> upload_state" where
  "uploadInner up d =
     (case makeProjectTarballAsync up (tmpFiles d) of
        (Inl e, fs) \<Rightarrow> (Inl e, d\<lparr>tmpFiles := fs\<rparr>)
      | (Inr projectTarball, fs) \<Rightarrow>
          (let d1 = d\<lparr>tmpFiles := fs, projectTarballPath := Some (path projectTarball)\<rparr>
           in case uploadAsync up (path projectTarball) of
                Inl e \<Rightarrow> (Inl e, d1)
              | Inr bucketKey \<Rightarrow> (Inr bucketKey, d1)))"

definition uploadProjectAsync :: "uploader \<Rightarrow> upload_state \<Rightarrow> (error + string) \<times> upload_state" where
  "uploadProjectAsync up d =
     (case withAnalyticsAsync (uploadInner up)
             PROJECT_UPLOAD_ATTEMPT PROJECT_UPLOAD_SUCCESS PROJECT_UPLOAD_FAIL
             (d\<lparr>projectTarballPath := None\<rparr>) of
        (r, d1) \<Rightarrow>
          (r, if truthy (projectTarballPath d1) then fs_remove (the (projectTarballPath d1)) d1 else d1))"

section \<open>Notions used in the properties\<close>

text \<open>
  The shape of an archive by the branch that made it: the url and path branches set
  \<open>url\<close> and leave \<open>build\<close> unset, the latest, buildId and buildList branches set
  \<open>build\<close> and leave \<open>url\<close> unset; no archive comes from the prompt branch itself.
\<close>

definition archiveShape :: "Archive \<Rightarrow> bool" where
  "archiveShape a =
     (case sourceType (source a) of
        ST_url \<Rightarrow> url a \<noteq> None \<and> build a = None
      | ST_path \<Rightarrow> url a \<noteq> None \<and> build a = None
      | ST_latest \<Rightarrow> build a \<noteq> None \<and> url a = None
      | ST_buildId \<Rightarrow> build a \<noteq> None \<and> url a = None
      | ST_buildList \<Rightarrow> build a \<noteq> None \<and> url a = None
      | ST_prompt \<Rightarrow> False)"

text \<open>
  The common fields of a source.
\<close>

fun baseOf :: "ArchiveSource \<Rightarrow> ArchiveSourceBase" where
  "baseOf (ArchiveUrlSource base _) = base"
| "baseOf (ArchiveLatestSource base) = base"
| "baseOf (ArchivePathSource base _) = base"
| "baseOf (ArchiveBuildIdSource base _) = base"
| "baseOf (ArchiveBuildListSource base) = base"
| "baseOf (ArchivePromptSource base) = base"

text \<open>
  Two worlds hold the same replies: nothing was asked between them.
\<close>

definition sameScript :: "world \<Rightarrow> world \<Rightarrow> bool" where
  "sameScript w w1 = (selects w1 = selects w \<and> texts w1 = texts w \<and> confirms w1 = confirms w)"

text \<open>
  The reference of a source fails validation: the URL is invalid, the path names no file,
  the id does not resolve or resolves to a build of another platform, there is no build, or
  every listed build is older than the expiry date.
\<close>

fun validationFails :: "env \<Rightarrow> ArchiveSource \<Rightarrow> world \<Rightarrow> bool" where
  "validationFails env (ArchiveUrlSource base u) w = (\<not> validateUrl env u)"
| "validationFails env (ArchivePathSource base p) w = (\<not> isExistingFileAsync env p)"
| "validationFails env (ArchiveBuildIdSource base i) w =
     (case byIdAsync env i of
        Inl _ \<Rightarrow> True
      | Inr b \<Rightarrow> platform_b b \<noteq> toAppPlatform (platform base))"
| "validationFails env (ArchiveLatestSource base) w =
     (getRecentBuildsForSubmissionAsync env (toAppPlatform (platform base)) (projectId base) None = Inr [])"
| "validationFails env (ArchiveBuildListSource base) w =
     (case getRecentBuildsForSubmissionAsync env (toAppPlatform (platform base)) (projectId base)
             (Some BUILD_LIST_ITEM_COUNT) of
        Inl _ \<Rightarrow> False
      | Inr bs \<Rightarrow>
          bs = [] \<or> list_all (\<lambda>it. updatedAt it < expiryDateOf env (clock env (clockReads w))) bs)"
| "validationFails env (ArchivePromptSource base) w = False"

text \<open>
  The expiry date that \<^verbatim>\<open>handleBuildListSourceAsync\<close> computes in a world.
\<close>

definition expiryAt :: "env \<Rightarrow> world \<Rightarrow> int" where
  "expiryAt env w = expiryDateOf env (clock env (clockReads w))"

text \<open>
  The entries the build list prompt shows: the title and the \<^verbatim>\<open>disabled\<close> flag of each.
\<close>

definition offered :: "env \<Rightarrow> BuildFragment list \<Rightarrow> int \<Rightarrow> (string \<times> bool) list" where
  "offered env bs expiryDate =
     map (\<lambda>c. (title c, disabled c))
       (map (\<lambda>choice. choice\<lparr>title := ''- '' @ title choice\<rparr>) (buildChoices env bs expiryDate))"

text \<open>
  The world after the build list prompt was asked and took a reply.
\<close>

definition afterQuestion :: "env \<Rightarrow> BuildFragment list \<Rightarrow> world \<Rightarrow> nat reply list \<Rightarrow> world" where
  "afterQuestion env bs w rs =
     (emit (Asked ''Which build would you like to submit?'' (offered env bs (expiryAt env w)))
        (snd (newDate env w)))\<lparr>selects := rs\<rparr>"

text \<open>
  The build list prompt is answered, and with no build: with its last entry, or with no
  entry at all.
\<close>

definition noBuildPicked :: "env \<Rightarrow> BuildFragment list \<Rightarrow> world \<Rightarrow> bool" where
  "noBuildPicked env bs w =
     (case fst (readSelect
                  (map (\<lambda>choice. choice\<lparr>title := ''- '' @ title choice\<rparr>) (buildChoices env bs (expiryAt env w)))
                  (selects w)) of
        Got (Some (Some b)) \<Rightarrow> False
      | Got _ \<Rightarrow> True
      | Failed e \<Rightarrow> False
      | NoReply \<Rightarrow> False)"

text \<open>
  The world after the two warnings of \<^verbatim>\<open>askIfUseBuildIdFromUrlAsync\<close>.
\<close>

definition afterWarnings :: "string \<Rightarrow> world \<Rightarrow> world" where
  "afterWarnings u w =
     Log_warn ''We expected to see the build artifact URL.''
       (Log_warn (''It seems that you provided a build details page URL: '' @ u) w)"

text \<open>
  The world after the confirmation was asked and took a reply.
\<close>

definition afterConfirm :: "string \<Rightarrow> string \<Rightarrow> bool reply list \<Rightarrow> world \<Rightarrow> world" where
  "afterConfirm u buildId cs w =
     (emit (Asked (''Do you want to submit build '' @ buildId @ '' instead?'') []) (afterWarnings u w))
       \<lparr>confirms := cs\<rparr>"

text \<open>
  The two snapshots on which the single-job branch throws: \<^verbatim>\<open>Errored\<close> without an
  error payload, and a status outside the six known values.
\<close>

definition fault :: "BuildFragment option \<Rightarrow> error option" where
  "fault b =
     (case b of
        Some snap \<Rightarrow>
          (case status snap of
             Errored \<Rightarrow> (if error_b snap = None then Some (Error ''Standalone build failed!'') else None)
           | UnknownStatus s \<Rightarrow> Some (Error (''Unknown build status: '' @ s @ '' - aborting!''))
           | _ \<Rightarrow> None)
      | None \<Rightarrow> None)"

text \<open>
  What the body of the loop decides on the snapshots of a tick, apart from the spinner.
\<close>

definition verdictOf :: "BuildFragment option list \<Rightarrow> verdict" where
  "verdictOf builds =
     (case (case builds of [b] \<Rightarrow> fault b | _ \<Rightarrow> None) of
        Some e \<Rightarrow> Throw e
      | None \<Rightarrow> if list_all endedSlot builds then Return builds else Continue)"

text \<open>
  The fault of a tick: that of the only snapshot when one job is tracked, none otherwise.
\<close>

definition faultOf :: "BuildFragment option list \<Rightarrow> error option" where
  "faultOf builds = (case builds of [b] \<Rightarrow> fault b | _ \<Rightarrow> None)"

text \<open>
  The tracker after the fetch and the decision of a tick.
\<close>

definition afterTick :: "service \<Rightarrow> string list \<Rightarrow> tracker \<Rightarrow> tracker" where
  "afterTick sv ids st = snd (decide (fst (fetchAll sv ids st)) (snd (fetchAll sv ids st)))"

text \<open>
  The count \<^verbatim>\<open>unknown\<close> of the many-job branch: the slots that are not counted as
  created, in queue, in progress, failed or finished.
\<close>

definition unknownCount :: "BuildFragment option list \<Rightarrow> nat" where
  "unknownCount builds =
     length builds - countStatus New builds - countStatus InQueue builds
       - countStatus InProgress builds - countStatus Errored builds - countStatus Finished builds"

text \<open>
  A slot that none of those five counts takes: a canceled snapshot, a snapshot of unknown
  status, or a fetch that failed.
\<close>

definition uncounted :: "BuildFragment option \<Rightarrow> bool" where
  "uncounted b =
     (case b of
        Some snap \<Rightarrow>
          (case status snap of
             New \<Rightarrow> False | InQueue \<Rightarrow> False | InProgress \<Rightarrow> False | Errored \<Rightarrow> False
           | Finished \<Rightarrow> False | Canceled \<Rightarrow> True | UnknownStatus s \<Rightarrow> True)
      | None \<Rightarrow> True)"

section \<open>Examples\<close>

text \<open>
  A stand-in for the URL parser (it agrees with \<^verbatim>\<open>new URL\<close> on the strings of the
  examples), a catalog with one recent and two expired builds, services for the polling
  loop and uploaders for the upload step.
\<close>

definition protocolOf :: "string \<Rightarrow> string option" where
  "protocolOf u =
     (if take 8 u = ''https://'' then Some ''https:''
      else if take 7 u = ''http://'' then Some ''http:'' else None)"

definition day :: int where
  "day = 86400000"

definition aBuild :: "string \<Rightarrow> AppPlatform \<Rightarrow> int \<Rightarrow> BuildFragment" where
  "aBuild i pf t =
     \<lparr>id_b = i, platform_b = pf, status = Finished, error_b = None, updatedAt = t,
      appVersion = Some ''1.0.0'', sdkVersion = None, runtimeVersion = None,
      buildProfile = Some ''production'', appBuildVersion = Some ''7'', releaseChannel = None,
      initiatingActor = Some ''dev''\<rparr>"

definition freshBuild :: BuildFragment where
  "freshBuild = aBuild ''3fa85f64-5717-4562-b3fc-2c963f66afa6'' Ios (95 * day)"

definition oldBuild1 :: BuildFragment where
  "oldBuild1 = aBuild ''11111111-1111-4111-8111-111111111111'' Ios (10 * day)"

definition oldBuild2 :: BuildFragment where
  "oldBuild2 = aBuild ''22222222-2222-4222-8222-222222222222'' Ios (20 * day)"

definition env0 :: env where
  "env0 =
     \<lparr>urlProtocol = protocolOf,
      isExistingFileAsync = (\<lambda>p. p = ''/tmp/app.ipa''),
      uploadAppArchiveAsync = (\<lambda>p. Inr ''https://uploads.example/app.ipa''),
      byIdAsync = (\<lambda>i. if i = id_b freshBuild then Inr freshBuild else Inl (Error ''not found'')),
      remoteBuilds = (\<lambda>pf pid. if pf = Ios \<and> pid = ''p1'' then Inr [oldBuild1, freshBuild, oldBuild2] else Inr []),
      clock = (\<lambda>n. 100 * day),
      offsetChange = (\<lambda>t. 0),
      appPlatformDisplayNames = (\<lambda>pf. case pf of Android \<Rightarrow> ''Android'' | Ios \<Rightarrow> ''iOS''),
      learnMore = (\<lambda>u. ''Learn more: '' @ u),
      toLocaleString = (\<lambda>t. ''some day'')\<rparr>"

definition base0 :: "bool \<Rightarrow> ArchiveSourceBase" where
  "base0 ni = \<lparr>platform = IOS, projectId = ''p1'', nonInteractive = ni\<rparr>"

definition world0 :: "nat reply list \<Rightarrow> string reply list \<Rightarrow> bool reply list \<Rightarrow> world" where
  "world0 ss ts cs = \<lparr>selects = ss, texts = ts, confirms = cs, clockReads = 0, trace = []\<rparr>"

definition envDown :: env where
  "envDown = env0\<lparr>remoteBuilds := (\<lambda>pf pid. Inl (Error ''network request failed''))\<rparr>"

definition envLate :: env where
  "envLate = env0\<lparr>clock := (\<lambda>n. 200 * day)\<rparr>"

definition baseEmpty :: ArchiveSourceBase where
  "baseEmpty = \<lparr>platform = IOS, projectId = ''none'', nonInteractive = False\<rparr>"

definition snapWith :: "BuildStatus \<Rightarrow> string option \<Rightarrow> BuildFragment" where
  "snapWith s e = freshBuild\<lparr>status := s, error_b := e\<rparr>"

definition svConst :: "BuildFragment \<Rightarrow> service" where
  "svConst b = \<lparr>fetchBuild = (\<lambda>n i. Inr b), fetchMs = (\<lambda>n. 0)\<rparr>"

definition svMixed :: service where
  "svMixed =
     \<lparr>fetchBuild = (\<lambda>n i. if i = ''a'' then Inr (snapWith Errored None) else Inr (snapWith Finished None)),
      fetchMs = (\<lambda>n. 0)\<rparr>"

definition svProgress :: service where
  "svProgress =
     \<lparr>fetchBuild = (\<lambda>n i. Inr (snapWith (if n = 0 then New else if n = 1 then InQueue
                                        else if n = 2 then InProgress else Finished) None)),
      fetchMs = (\<lambda>n. 0)\<rparr>"

definition tracker0 :: tracker where
  "tracker0 = \<lparr>nowMs = 0, ticks = 0, spinnerText = [], calls = [], logs = []\<rparr>"

definition detailsUrl :: string where
  "detailsUrl = ''https://expo.dev/accounts/x/projects/y/builds/3fa85f64-5717-4562-b3fc-2c963f66afa6''"

definition unknownDetailsUrl :: string where
  "unknownDetailsUrl = ''https://expo.dev/accounts/x/projects/y/builds/9c0d1f6e-1111-4222-8333-444455556666''"

definition tarball0 :: Tarball where
  "tarball0 = \<lparr>path = ''/tmp/eas/project.tar.gz'', size_t = 1024\<rparr>"

definition upState0 :: upload_state where
  "upState0 = \<lparr>tmpFiles = {''/tmp/eas/other''}, analytics = [], projectTarballPath = None\<rparr>"

definition uploaderOf :: "bool \<Rightarrow> bool \<Rightarrow> uploader" where
  "uploaderOf tarOk netOk =
     \<lparr>makeProjectTarballAsync =
        (\<lambda>fs. if tarOk then (Inr tarball0, insert (path tarball0) fs)
              else (Inl (Error ''tar failed''), fs)),
      uploadAsync = (\<lambda>p. if netOk then Inr ''bucket/key'' else Inl (Error ''network failure''))\<rparr>"

definition uploaderHalfway :: uploader where
  "uploaderHalfway =
     \<lparr>makeProjectTarballAsync = (\<lambda>fs. (Inl (Error ''tar failed''), insert (path tarball0) fs)),
      uploadAsync = (\<lambda>p. Inr ''bucket/key'')\<rparr>"

section \<open>Properties\<close>

lemmas fixture_defs = protocolOf_def day_def aBuild_def freshBuild_def oldBuild1_def oldBuild2_def env0_def base0_def world0_def envDown_def envLate_def baseEmpty_def

lemmas resolver_defs = handleUrlSourceAsync_def handleLatestSourceAsync_def handlePathSourceAsync_def
  handleBuildIdSourceAsync_def handleBuildListSourceAsync_def handlePromptSourceAsync_def
  asStep_def askForArchiveUrlAsync_def askForArchivePathAsync_def askForBuildIdAsync_def
  askIfUseBuildIdFromUrlAsync_def promptSelect_def promptText_def confirmAsync_def
  emit_def Log_error_def Log_warn_def Log_log_def Log_debug_def newDate_def validateUrl_def
  getRecentBuildsForSubmissionAsync_def newestFirst_def sourceTypeChoices_def
  buildChoices_def formatBuildChoice_def noneOfTheAbove_def expiryDateOf_def BUILD_LIST_ITEM_COUNT_def
  truthy_def formatValue_def

lemmas tracker_defs = waitForBuildEndAsync_def fetchAll_def snapshot_def fetchFailures_def decide_def
  single_def multiple_def countStatus_def endedSlot_def statusText_def counted_def sleepAsync_def
  spinner_call_def logLine_def TIMEOUT_def

lemmas tracker_fixture_defs = snapWith_def svConst_def svMixed_def svProgress_def tracker0_def
  freshBuild_def aBuild_def

subsection \<open>The archive source resolver\<close>

lemma url_Done: "handleUrlSourceAsync env base u w = (Done (Inr a), w') \<Longrightarrow> archiveShape a"
  by (auto simp: handleUrlSourceAsync_def archiveShape_def
      split: if_splits option.splits prod.splits asked.splits bool.splits)

lemma latest_Done: "handleLatestSourceAsync env base w = (Done (Inr a), w') \<Longrightarrow> archiveShape a"
  by (auto simp: handleLatestSourceAsync_def archiveShape_def split: sum.splits list.splits)

lemma path_Done: "handlePathSourceAsync env base p w = (Done (Inr a), w') \<Longrightarrow> archiveShape a"
  by (auto simp: handlePathSourceAsync_def archiveShape_def Let_def split: if_splits sum.splits)

lemma buildId_Done: "handleBuildIdSourceAsync env base i w = (Done (Inr a), w') \<Longrightarrow> archiveShape a"
  by (auto simp: handleBuildIdSourceAsync_def archiveShape_def Let_def split: if_splits sum.splits)

lemma buildList_Done:
  assumes "handleBuildListSourceAsync env base w = (Done (Inr a), w')"
  shows "archiveShape a"
proof -
  obtain nowMs w0 where nd: "newDate env w = (nowMs, w0)" by force
  show ?thesis
  proof (cases "getRecentBuildsForSubmissionAsync env (toAppPlatform (platform base)) (projectId base) (Some BUILD_LIST_ITEM_COUNT)")
    case (Inl err)
    with assms nd show ?thesis by (simp add: handleBuildListSourceAsync_def)
  next
    case (Inr bs)
    with assms nd show ?thesis
      by (auto simp: handleBuildListSourceAsync_def Let_def archiveShape_def
          split: if_splits prod.splits asked.splits option.splits)
  qed
qed

lemma asStep_Done: "asStep p mk \<noteq> (Done (Inr a), w')"
  by (auto simp: asStep_def split: prod.splits asked.splits)

lemma prompt_Done: "handlePromptSourceAsync env base w \<noteq> (Done (Inr a), w')"
  by (auto simp: handlePromptSourceAsync_def asStep_Done
      split: prod.splits asked.splits option.splits ArchiveSourceType.splits)

lemma dispatch_Done:
  assumes "dispatch env src w = (Done (Inr a), w')"
  shows "archiveShape a"
  using assms url_Done latest_Done path_Done buildId_Done buildList_Done prompt_Done
  by (cases src) auto

lemma getArchive_shape:
  "getArchiveAsync env src w = Some (Inr a, w') \<Longrightarrow> archiveShape a"
proof (induction env src w rule: getArchiveAsync.induct)
  case (1 env src w)
  obtain st w1 where d: "dispatch env src w = (st, w1)" by force
  show ?case
  proof (cases st)
    case (Done r)
    with d "1.prems" have "r = Inr a" "w1 = w'" by (simp_all add: getArchiveAsync.simps[of env src w])
    with d Done show ?thesis by (auto dest: dispatch_Done)
  next
    case (Recurse src')
    with d "1.prems" have "getArchiveAsync env src' w1 = Some (Inr a, w')"
      by (simp add: getArchiveAsync.simps[of env src w])
    with "1.IH"[OF d[symmetric] Recurse] show ?thesis by simp
  next
    case Suspend
    with d "1.prems" show ?thesis by (simp add: getArchiveAsync.simps[of env src w])
  qed
qed

lemma getArchiveAsync_Recurse:
  "dispatch env src w = (Recurse s, w1) \<Longrightarrow> getArchiveAsync env src w = getArchiveAsync env s w1"
  by (simp add: getArchiveAsync.simps[of env src w])

lemma getArchiveAsync_Done:
  "dispatch env src w = (Done r, w1) \<Longrightarrow> getArchiveAsync env src w = Some (r, w1)"
  by (simp add: getArchiveAsync.simps[of env src w])

lemma sameScript_emit [simp]: "sameScript w (emit e w)"
  by (simp add: sameScript_def emit_def)

lemma sameScript_Log [simp]:
  "sameScript w (Log_error m w)" "sameScript w (Log_warn m w)"
  by (simp_all add: Log_error_def Log_warn_def)

lemma validationFails_step:
  assumes "validationFails env src w"
  shows "fst (dispatch env src w) = Recurse (ArchivePromptSource (baseOf src))
         \<and> sameScript w (snd (dispatch env src w))"
proof (cases src)
  case (ArchiveUrlSource base u)
  with assms show ?thesis by (simp add: handleUrlSourceAsync_def)
next
  case (ArchiveLatestSource base)
  with assms show ?thesis by (simp add: handleLatestSourceAsync_def)
next
  case (ArchivePathSource base p)
  with assms show ?thesis by (simp add: handlePathSourceAsync_def)
next
  case (ArchiveBuildIdSource base i)
  with assms show ?thesis
    by (auto simp: handleBuildIdSourceAsync_def Let_def sameScript_def emit_def
          Log_error_def Log_warn_def Log_debug_def split: sum.splits)
next
  case (ArchiveBuildListSource base)
  with assms show ?thesis
    by (auto simp: handleBuildListSourceAsync_def Let_def newDate_def sameScript_def emit_def
          Log_error_def split: sum.splits)
next
  case (ArchivePromptSource base)
  with assms show ?thesis by simp
qed

text \<open>
  Claim C1, as amended. For every source other than the prompt source whose reference fails
  validation, \<^verbatim>\<open>getArchiveAsync\<close> recurses on the prompt source over the same common fields,
  whatever \<open>nonInteractive\<close> is: no reply is consumed on the way, and the outcome is the
  outcome of the prompt source in the world with the failure logged.
\<close>

theorem failed_validation_recurses_as_prompt:
  assumes "validationFails env src w"
  shows "fst (dispatch env src w) = Recurse (ArchivePromptSource (baseOf src))
         \<and> sameScript w (snd (dispatch env src w))
         \<and> getArchiveAsync env src w
             = getArchiveAsync env (ArchivePromptSource (baseOf src)) (snd (dispatch env src w))"
proof -
  from validationFails_step[OF assms]
  have st: "fst (dispatch env src w) = Recurse (ArchivePromptSource (baseOf src))"
    and sc: "sameScript w (snd (dispatch env src w))" by simp_all
  from st have "dispatch env src w = (Recurse (ArchivePromptSource (baseOf src)), snd (dispatch env src w))"
    by (metis prod.collapse)
  from getArchiveAsync_Recurse[OF this] st sc show ?thesis by simp
qed

text \<open>
  Claim C1 as stated fails. With \<open>nonInteractive\<close> set and a URL that does not validate,
  the run goes on to the prompt and returns the archive of the URL typed there: no error
  is raised.
\<close>

theorem nonInteractive_fallback_counterexample:
  "nonInteractive (base0 True)
   \<and> validationFails env0 (ArchiveUrlSource (base0 True) ''not a url'') (world0 [Answer 1] [Answer ''https://a.b/c.aab''] [])
   \<and> map_option fst (getArchiveAsync env0 (ArchiveUrlSource (base0 True) ''not a url'')
          (world0 [Answer 1] [Answer ''https://a.b/c.aab''] []))
       = Some (Inr \<lparr>build = None, source = ArchiveUrlSource (base0 True) ''https://a.b/c.aab'',
                    url = Some ''https://a.b/c.aab''\<rparr>)"
  by (simp add: getArchiveAsync.simps resolver_defs fixture_defs isBuildDetailsPage_def)

text \<open>
  An instance of the amended claim C1: a missing path in non-interactive mode leads to the
  prompt, where the run waits for a reply that never comes.
\<close>

theorem failed_validation_recurses_as_prompt_witness:
  "validationFails env0 (ArchivePathSource (base0 True) ''/nowhere.ipa'') (world0 [] [] [])
   \<and> fst (dispatch env0 (ArchivePathSource (base0 True) ''/nowhere.ipa'') (world0 [] [] []))
       = Recurse (ArchivePromptSource (base0 True))
   \<and> getArchiveAsync env0 (ArchivePathSource (base0 True) ''/nowhere.ipa'') (world0 [] [] []) = None"
proof -
  have h: "validationFails env0 (ArchivePathSource (base0 True) ''/nowhere.ipa'') (world0 [] [] [])"
    by (simp add: fixture_defs)
  have "getArchiveAsync env0 (ArchivePromptSource (base0 True))
          (snd (dispatch env0 (ArchivePathSource (base0 True) ''/nowhere.ipa'') (world0 [] [] []))) = None"
    by (simp add: getArchiveAsync.simps resolver_defs fixture_defs)
  with h failed_validation_recurses_as_prompt[OF h] show ?thesis by simp
qed

text \<open>
  Claim C6. Every archive that \<^verbatim>\<open>getArchiveAsync\<close> returns, from any source and through
  any number of fallbacks, has the shape of the branch that made it, and so has exactly one
  of \<open>url\<close> and \<open>build\<close> set.
\<close>

theorem archive_has_exactly_one_of_url_and_build:
  assumes "getArchiveAsync env src w = Some (Inr a, w')"
  shows "archiveShape a \<and> (url a = None) \<noteq> (build a = None)"
proof -
  from assms have "archiveShape a" by (rule getArchive_shape)
  then show ?thesis by (auto simp: archiveShape_def split: ArchiveSourceType.splits)
qed

text \<open>
  An instance of claim C6: a missing path, then the prompt, then a build id typed in.
\<close>

theorem archive_has_exactly_one_of_url_and_build_witness:
  "archiveShape \<lparr>build = Some freshBuild, source = ArchiveBuildIdSource (base0 False) (id_b freshBuild), url = None\<rparr>
   \<and> map_option fst (getArchiveAsync env0 (ArchivePathSource (base0 False) ''/nowhere.ipa'')
          (world0 [Answer 3] [Answer (id_b freshBuild)] []))
       = Some (Inr \<lparr>build = Some freshBuild, source = ArchiveBuildIdSource (base0 False) (id_b freshBuild), url = None\<rparr>)"
proof -
  have "map_option fst (getArchiveAsync env0 (ArchivePathSource (base0 False) ''/nowhere.ipa'')
          (world0 [Answer 3] [Answer (id_b freshBuild)] []))
       = Some (Inr \<lparr>build = Some freshBuild, source = ArchiveBuildIdSource (base0 False) (id_b freshBuild), url = None\<rparr>)"
    by (simp add: getArchiveAsync.simps resolver_defs fixture_defs isUuidV4_def uuid_validate_def hexDigit_def)
  then obtain w' where h: "getArchiveAsync env0 (ArchivePathSource (base0 False) ''/nowhere.ipa'')
          (world0 [Answer 3] [Answer (id_b freshBuild)] [])
       = Some (Inr \<lparr>build = Some freshBuild, source = ArchiveBuildIdSource (base0 False) (id_b freshBuild), url = None\<rparr>, w')"
    by auto
  from archive_has_exactly_one_of_url_and_build[OF h] h show ?thesis by simp
qed

subsection \<open>The build list\<close>

lemma newestFirst_sorted: "sorted_wrt (\<lambda>a b. updatedAt b \<le> updatedAt a) (newestFirst bs)"
proof -
  have "sorted (map updatedAt (sort_key updatedAt bs))" by (rule sorted_sort_key)
  then have "sorted_wrt (\<lambda>a b. updatedAt a \<le> updatedAt b) (sort_key updatedAt bs)"
    by (simp add: sorted_map)
  then show ?thesis by (simp add: newestFirst_def sorted_wrt_rev)
qed

lemma recent_limit:
  assumes "getRecentBuildsForSubmissionAsync env ap pid (Some n) = Inr bs"
  shows "length bs \<le> n \<and> sorted_wrt (\<lambda>a b. updatedAt b \<le> updatedAt a) bs"
proof -
  from assms obtain all where "bs = take n (newestFirst all)"
    by (auto simp: getRecentBuildsForSubmissionAsync_def split: sum.splits)
  then show ?thesis using newestFirst_sorted[of all] by simp
qed

lemma offered_flags:
  "map snd (offered env bs e) = map (\<lambda>b. updatedAt b < e) bs @ [False]"
  by (simp add: offered_def buildChoices_def formatBuildChoice_def noneOfTheAbove_def Let_def comp_def)

lemma offered_last:
  "last (offered env bs e) = (''- None of the above (select another option)'', False)"
  by (simp add: offered_def buildChoices_def noneOfTheAbove_def)

lemma buildList_none_usable:
  assumes "getRecentBuildsForSubmissionAsync env (toAppPlatform (platform base)) (projectId base)
             (Some BUILD_LIST_ITEM_COUNT) = Inr bs"
    and "bs = [] \<or> list_all (\<lambda>b. updatedAt b < expiryAt env w) bs"
  shows "fst (dispatch env (ArchiveBuildListSource base) w) = Recurse (ArchivePromptSource base)
         \<and> sameScript w (snd (dispatch env (ArchiveBuildListSource base) w))"
  using validationFails_step[of env "ArchiveBuildListSource base" w] assms
  by (simp add: expiryAt_def)

lemma promptSelect_read:
  "promptSelect m cs w =
     (fst (readSelect cs (selects w)),
      (emit (Asked m (map (\<lambda>c. (title c, disabled c)) cs)) w)\<lparr>selects := snd (readSelect cs (selects w))\<rparr>)"
  by (simp add: promptSelect_def Let_def emit_def split: prod.splits)

lemma buildList_unfold:
  assumes "getRecentBuildsForSubmissionAsync env (toAppPlatform (platform base)) (projectId base)
             (Some BUILD_LIST_ITEM_COUNT) = Inr bs"
    and "bs \<noteq> []" and "\<not> list_all (\<lambda>b. updatedAt b < expiryAt env w) bs"
  shows "dispatch env (ArchiveBuildListSource base) w =
          (case promptSelect ''Which build would you like to submit?''
                  (map (\<lambda>choice. choice\<lparr>title := ''- '' @ title choice\<rparr>) (buildChoices env bs (expiryAt env w)))
                  (snd (newDate env w)) of
             (Got (Some (Some selectedBuild)), w1) \<Rightarrow>
               (Done (Inr \<lparr>build = Some selectedBuild, source = ArchiveBuildListSource base, url = None\<rparr>), w1)
           | (Got _, w1) \<Rightarrow> (Recurse (ArchivePromptSource base), w1)
           | (Failed err, w1) \<Rightarrow> (Done (Inl err), Log_error (message err) w1)
           | (NoReply, w1) \<Rightarrow> (Suspend, w1))"
proof -
  have len: "\<not> length bs < 1" using assms(2) by (cases bs) simp_all
  show ?thesis
    using assms(1,3) len
    by (simp add: handleBuildListSourceAsync_def Let_def expiryAt_def newDate_def)
qed

lemma buildList_asked:
  assumes "getRecentBuildsForSubmissionAsync env (toAppPlatform (platform base)) (projectId base)
             (Some BUILD_LIST_ITEM_COUNT) = Inr bs"
    and "bs \<noteq> []" and "\<not> list_all (\<lambda>b. updatedAt b < expiryAt env w) bs"
    and "selects w = Answer i # rs"
  shows "i = length bs \<Longrightarrow>
           dispatch env (ArchiveBuildListSource base) w
             = (Recurse (ArchivePromptSource base), afterQuestion env bs w rs)"
    and "i < length bs \<Longrightarrow> \<not> updatedAt (bs ! i) < expiryAt env w \<Longrightarrow>
           dispatch env (ArchiveBuildListSource base) w
             = (Done (Inr \<lparr>build = Some (bs ! i), source = ArchiveBuildListSource base, url = None\<rparr>),
                afterQuestion env bs w rs)"
    and "i < length bs \<Longrightarrow> updatedAt (bs ! i) < expiryAt env w \<Longrightarrow>
           dispatch env (ArchiveBuildListSource base) w
             = dispatch env (ArchiveBuildListSource base) (w\<lparr>selects := rs\<rparr>)"
proof -
  let ?cs = "map (\<lambda>choice. choice\<lparr>title := ''- '' @ title choice\<rparr>) (buildChoices env bs (expiryAt env w))"
  let ?w0 = "snd (newDate env w)"
  have sel: "selects ?w0 = Answer i # rs" using assms(4) by (simp add: newDate_def)
  note u = buildList_unfold[OF assms(1-3)]
  { assume i: "i = length bs"
    have r: "readSelect ?cs (selects ?w0) = (Got (Some None), rs)"
      unfolding sel using i by (simp add: buildChoices_def nth_append noneOfTheAbove_def)
    show "dispatch env (ArchiveBuildListSource base) w
             = (Recurse (ArchivePromptSource base), afterQuestion env bs w rs)"
      unfolding u promptSelect_read r by (simp add: afterQuestion_def offered_def) }
  { assume i: "i < length bs" and f: "\<not> updatedAt (bs ! i) < expiryAt env w"
    have r: "readSelect ?cs (selects ?w0) = (Got (Some (Some (bs ! i))), rs)"
      unfolding sel using i f by (simp add: buildChoices_def nth_append formatBuildChoice_def Let_def)
    show "dispatch env (ArchiveBuildListSource base) w
             = (Done (Inr \<lparr>build = Some (bs ! i), source = ArchiveBuildListSource base, url = None\<rparr>),
                afterQuestion env bs w rs)"
      unfolding u promptSelect_read r by (simp add: afterQuestion_def offered_def) }
  { assume i: "i < length bs" and x: "updatedAt (bs ! i) < expiryAt env w"
    have e: "expiryAt env (w\<lparr>selects := rs\<rparr>) = expiryAt env w" by (simp add: expiryAt_def)
    have n: "snd (newDate env (w\<lparr>selects := rs\<rparr>)) = ?w0\<lparr>selects := rs\<rparr>"
      by (simp add: newDate_def)
    have a3: "\<not> list_all (\<lambda>b. updatedAt b < expiryAt env (w\<lparr>selects := rs\<rparr>)) bs"
      using assms(3) e by simp
    have r: "readSelect ?cs (selects ?w0) = readSelect ?cs rs"
      unfolding sel using i x by (simp add: buildChoices_def nth_append formatBuildChoice_def Let_def)
    have q: "promptSelect ''Which build would you like to submit?'' ?cs ?w0
            = promptSelect ''Which build would you like to submit?'' ?cs (?w0\<lparr>selects := rs\<rparr>)"
      unfolding promptSelect_read r by (simp add: emit_def)
    show "dispatch env (ArchiveBuildListSource base) w
             = dispatch env (ArchiveBuildListSource base) (w\<lparr>selects := rs\<rparr>)"
      unfolding u buildList_unfold[OF assms(1,2) a3] e n q .. }
qed

text \<open>
  Claim C7, as amended. When the catalog returns the list \<open>bs\<close> for the build list source: the
  list has at most 4 builds, newest first; if it is empty or every build is older than the
  expiry date (30 calendar days before the clock reading), the handler recurses on the
  prompt source without asking; otherwise it shows the builds, each disabled when older than
  the expiry date, and the entry \<open>None of the above\<close> last. The reply that picks that last
  entry recurses on the prompt source; the reply that picks a build that is not disabled
  returns the archive of that build; the reply that picks a disabled build is refused by
  the prompt and passed over, the run being that of the replies after it.
\<close>

theorem buildList_resolution:
  assumes "getRecentBuildsForSubmissionAsync env (toAppPlatform (platform base)) (projectId base)
             (Some BUILD_LIST_ITEM_COUNT) = Inr bs"
  shows "length bs \<le> 4 \<and> sorted_wrt (\<lambda>a b. updatedAt b \<le> updatedAt a) bs
       \<and> (bs = [] \<or> list_all (\<lambda>b. updatedAt b < expiryAt env w) bs \<longrightarrow>
            fst (dispatch env (ArchiveBuildListSource base) w) = Recurse (ArchivePromptSource base)
            \<and> sameScript w (snd (dispatch env (ArchiveBuildListSource base) w)))
       \<and> (bs \<noteq> [] \<and> \<not> list_all (\<lambda>b. updatedAt b < expiryAt env w) bs \<and> selects w = Answer i # rs \<longrightarrow>
            map snd (offered env bs (expiryAt env w)) = map (\<lambda>b. updatedAt b < expiryAt env w) bs @ [False]
            \<and> last (offered env bs (expiryAt env w)) = (''- None of the above (select another option)'', False)
            \<and> (i = length bs \<longrightarrow>
                  getArchiveAsync env (ArchiveBuildListSource base) w
                    = getArchiveAsync env (ArchivePromptSource base) (afterQuestion env bs w rs))
            \<and> (i < length bs \<and> \<not> updatedAt (bs ! i) < expiryAt env w \<longrightarrow>
                  getArchiveAsync env (ArchiveBuildListSource base) w
                    = Some (Inr \<lparr>build = Some (bs ! i), source = ArchiveBuildListSource base, url = None\<rparr>,
                            afterQuestion env bs w rs))
            \<and> (i < length bs \<and> updatedAt (bs ! i) < expiryAt env w \<longrightarrow>
                  dispatch env (ArchiveBuildListSource base) w
                    = dispatch env (ArchiveBuildListSource base) (w\<lparr>selects := rs\<rparr>)
                  \<and> getArchiveAsync env (ArchiveBuildListSource base) w
                    = getArchiveAsync env (ArchiveBuildListSource base) (w\<lparr>selects := rs\<rparr>)))"
proof -
  have a: "length bs \<le> 4 \<and> sorted_wrt (\<lambda>a b. updatedAt b \<le> updatedAt a) bs"
    using recent_limit[OF assms] by (simp add: BUILD_LIST_ITEM_COUNT_def)
  have b: "bs = [] \<or> list_all (\<lambda>b. updatedAt b < expiryAt env w) bs \<longrightarrow>
            fst (dispatch env (ArchiveBuildListSource base) w) = Recurse (ArchivePromptSource base)
            \<and> sameScript w (snd (dispatch env (ArchiveBuildListSource base) w))"
    using buildList_none_usable[OF assms] by blast
  have c: "bs \<noteq> [] \<and> \<not> list_all (\<lambda>b. updatedAt b < expiryAt env w) bs \<and> selects w = Answer i # rs \<longrightarrow>
            (i = length bs \<longrightarrow>
                  getArchiveAsync env (ArchiveBuildListSource base) w
                    = getArchiveAsync env (ArchivePromptSource base) (afterQuestion env bs w rs))
            \<and> (i < length bs \<and> \<not> updatedAt (bs ! i) < expiryAt env w \<longrightarrow>
                  getArchiveAsync env (ArchiveBuildListSource base) w
                    = Some (Inr \<lparr>build = Some (bs ! i), source = ArchiveBuildListSource base, url = None\<rparr>,
                            afterQuestion env bs w rs))
            \<and> (i < length bs \<and> updatedAt (bs ! i) < expiryAt env w \<longrightarrow>
                  dispatch env (ArchiveBuildListSource base) w
                    = dispatch env (ArchiveBuildListSource base) (w\<lparr>selects := rs\<rparr>)
                  \<and> getArchiveAsync env (ArchiveBuildListSource base) w
                    = getArchiveAsync env (ArchiveBuildListSource base) (w\<lparr>selects := rs\<rparr>))"
  proof (intro impI conjI)
    assume h: "bs \<noteq> [] \<and> \<not> list_all (\<lambda>b. updatedAt b < expiryAt env w) bs \<and> selects w = Answer i # rs"
    then have h1: "bs \<noteq> []" and h2: "\<not> list_all (\<lambda>b. updatedAt b < expiryAt env w) bs"
      and h3: "selects w = Answer i # rs" by simp_all
    note d = buildList_asked[OF assms h1 h2 h3]
    { assume "i = length bs"
      from getArchiveAsync_Recurse[OF d(1)[OF this]]
      show "getArchiveAsync env (ArchiveBuildListSource base) w
                    = getArchiveAsync env (ArchivePromptSource base) (afterQuestion env bs w rs)" . }
    { assume "i < length bs \<and> \<not> updatedAt (bs ! i) < expiryAt env w"
      then have "dispatch env (ArchiveBuildListSource base) w
             = (Done (Inr \<lparr>build = Some (bs ! i), source = ArchiveBuildListSource base, url = None\<rparr>),
                afterQuestion env bs w rs)" using d(2) by blast
      then show "getArchiveAsync env (ArchiveBuildListSource base) w
                    = Some (Inr \<lparr>build = Some (bs ! i), source = ArchiveBuildListSource base, url = None\<rparr>,
                            afterQuestion env bs w rs)"
        by (rule getArchiveAsync_Done) }
    { assume "i < length bs \<and> updatedAt (bs ! i) < expiryAt env w"
      then have e: "dispatch env (ArchiveBuildListSource base) w
             = dispatch env (ArchiveBuildListSource base) (w\<lparr>selects := rs\<rparr>)" using d(3) by blast
      then show "dispatch env (ArchiveBuildListSource base) w
             = dispatch env (ArchiveBuildListSource base) (w\<lparr>selects := rs\<rparr>)" .
      from e show "getArchiveAsync env (ArchiveBuildListSource base) w
                    = getArchiveAsync env (ArchiveBuildListSource base) (w\<lparr>selects := rs\<rparr>)"
        by (simp add: getArchiveAsync.simps[of env "ArchiveBuildListSource base" w]
                      getArchiveAsync.simps[of env "ArchiveBuildListSource base" "w\<lparr>selects := rs\<rparr>"]) }
  qed
  from a b c offered_flags[of env bs "expiryAt env w"] offered_last[of env bs "expiryAt env w"]
  show ?thesis by blast
qed

lemma recent0:
  "getRecentBuildsForSubmissionAsync env0 (toAppPlatform (platform (base0 ni))) (projectId (base0 ni))
     (Some BUILD_LIST_ITEM_COUNT) = Inr [freshBuild, oldBuild2, oldBuild1]"
  by (simp add: getRecentBuildsForSubmissionAsync_def newestFirst_def fixture_defs BUILD_LIST_ITEM_COUNT_def)

text \<open>
  Claim C7 as stated fails. The second entry is an expired build and so disabled: picking it
  and then the first entry returns the first build, and picking it alone leaves the run at
  the prompt. Picking an expired entry is not allowed.
\<close>

theorem expired_pick_counterexample:
  "map snd (offered env0 [freshBuild, oldBuild2, oldBuild1] (expiryAt env0 (world0 [Answer 1, Answer 0] [] [])))
       = [False, True, True, False]
   \<and> map_option fst (getArchiveAsync env0 (ArchiveBuildListSource (base0 False)) (world0 [Answer 1, Answer 0] [] []))
       = Some (Inr \<lparr>build = Some freshBuild, source = ArchiveBuildListSource (base0 False), url = None\<rparr>)
   \<and> getArchiveAsync env0 (ArchiveBuildListSource (base0 False)) (world0 [Answer 1] [] []) = None"
  by (simp add: getArchiveAsync.simps resolver_defs fixture_defs offered_def expiryAt_def)

text \<open>
  An instance of the amended claim C7: three builds, two of them expired; picking the
  recent build returns it, picking the last entry leads to the prompt, picking an expired
  build is passed over, and a list of expired builds only leads to the prompt unasked.
\<close>

theorem buildList_resolution_witness:
  "getRecentBuildsForSubmissionAsync env0 (toAppPlatform (platform (base0 False))) (projectId (base0 False))
     (Some BUILD_LIST_ITEM_COUNT) = Inr [freshBuild, oldBuild2, oldBuild1]
   \<and> map snd (offered env0 [freshBuild, oldBuild2, oldBuild1] (expiryAt env0 (world0 [Answer 0] [] [])))
       = [False, True, True, False]
   \<and> getArchiveAsync env0 (ArchiveBuildListSource (base0 False)) (world0 [Answer 0] [] [])
       = Some (Inr \<lparr>build = Some freshBuild, source = ArchiveBuildListSource (base0 False), url = None\<rparr>,
               afterQuestion env0 [freshBuild, oldBuild2, oldBuild1] (world0 [Answer 0] [] []) [])
   \<and> getArchiveAsync env0 (ArchiveBuildListSource (base0 False)) (world0 [Answer 3] [] [])
       = getArchiveAsync env0 (ArchivePromptSource (base0 False))
           (afterQuestion env0 [freshBuild, oldBuild2, oldBuild1] (world0 [Answer 3] [] []) [])
   \<and> getArchiveAsync env0 (ArchiveBuildListSource (base0 False)) (world0 [Answer 1, Answer 0] [] [])
       = getArchiveAsync env0 (ArchiveBuildListSource (base0 False))
           ((world0 [Answer 1, Answer 0] [] [])\<lparr>selects := [Answer 0]\<rparr>)
   \<and> list_all (\<lambda>b. updatedAt b < expiryAt envLate (world0 [] [] [])) [freshBuild, oldBuild2, oldBuild1]
   \<and> fst (dispatch envLate (ArchiveBuildListSource (base0 False)) (world0 [] [] []))
       = Recurse (ArchivePromptSource (base0 False))"
proof -
  have l: "getRecentBuildsForSubmissionAsync envLate (toAppPlatform (platform (base0 False)))
             (projectId (base0 False)) (Some BUILD_LIST_ITEM_COUNT) = Inr [freshBuild, oldBuild2, oldBuild1]"
    by (simp add: getRecentBuildsForSubmissionAsync_def newestFirst_def fixture_defs BUILD_LIST_ITEM_COUNT_def)
  have x: "list_all (\<lambda>b. updatedAt b < expiryAt envLate (world0 [] [] [])) [freshBuild, oldBuild2, oldBuild1]"
    by (simp add: expiryAt_def expiryDateOf_def fixture_defs)
  have e: "\<And>ss. expiryAt env0 (world0 ss [] []) = 70 * day"
    by (simp add: expiryAt_def expiryDateOf_def fixture_defs)
  have n: "\<And>ss. \<not> list_all (\<lambda>b. updatedAt b < expiryAt env0 (world0 ss [] [])) [freshBuild, oldBuild2, oldBuild1]"
    by (simp add: e) (simp add: fixture_defs)
  have s: "\<And>i rs. selects (world0 (Answer i # rs) [] []) = Answer i # rs" by (simp add: world0_def)
  have f: "map (\<lambda>b. updatedAt b < 70 * day) [freshBuild, oldBuild2, oldBuild1] = [False, True, True]"
    by (simp add: fixture_defs)
  have f0: "\<not> updatedAt freshBuild < 70 * day" "updatedAt oldBuild2 < 70 * day"
    by (simp_all add: fixture_defs)
  have 1: "getArchiveAsync env0 (ArchiveBuildListSource (base0 False)) (world0 [Answer 0] [] [])
       = Some (Inr \<lparr>build = Some freshBuild, source = ArchiveBuildListSource (base0 False), url = None\<rparr>,
               afterQuestion env0 [freshBuild, oldBuild2, oldBuild1] (world0 [Answer 0] [] []) [])
       \<and> map snd (offered env0 [freshBuild, oldBuild2, oldBuild1] (expiryAt env0 (world0 [Answer 0] [] [])))
       = [False, True, True, False]"
    using buildList_resolution[where w = "world0 [Answer 0] [] []" and i = 0 and rs = "[]", OF recent0[of False]]
          n s f e f0 by simp
  have 2: "getArchiveAsync env0 (ArchiveBuildListSource (base0 False)) (world0 [Answer 3] [] [])
       = getArchiveAsync env0 (ArchivePromptSource (base0 False))
           (afterQuestion env0 [freshBuild, oldBuild2, oldBuild1] (world0 [Answer 3] [] []) [])"
    using buildList_resolution[where w = "world0 [Answer 3] [] []" and i = 3 and rs = "[]", OF recent0[of False]]
          n s by simp
  have 3: "getArchiveAsync env0 (ArchiveBuildListSource (base0 False)) (world0 [Answer 1, Answer 0] [] [])
       = getArchiveAsync env0 (ArchiveBuildListSource (base0 False))
           ((world0 [Answer 1, Answer 0] [] [])\<lparr>selects := [Answer 0]\<rparr>)"
    using buildList_resolution[where w = "world0 [Answer 1, Answer 0] [] []" and i = 1 and rs = "[Answer 0]",
            OF recent0[of False]]
          n s e f0 by simp
  have 4: "fst (dispatch envLate (ArchiveBuildListSource (base0 False)) (world0 [] [] []))
       = Recurse (ArchivePromptSource (base0 False))"
    using buildList_resolution[where w = "world0 [] [] []", OF l] x by blast
  from 1 2 3 4 x recent0[of False] show ?thesis by simp
qed

subsection \<open>Failures of the catalog\<close>

text \<open>
  Claim C10, as amended. When the fetch of the recent builds throws, the latest and the
  build list sources log the error and throw it again, and nothing is asked. These two
  branches recurse on the prompt source exactly after a fetch that succeeded: the latest
  source when it returned no build; the build list source when it returned no build or
  only expired builds, or when the user, asked to pick one, picked none.
\<close>

theorem catalog_failure_is_logged_and_rethrown:
  "(getRecentBuildsForSubmissionAsync env (toAppPlatform (platform base)) (projectId base) None = Inl err \<longrightarrow>
      getArchiveAsync env (ArchiveLatestSource base) w = Some (Inl err, Log_error (message err) w))
   \<and> (getRecentBuildsForSubmissionAsync env (toAppPlatform (platform base)) (projectId base)
         (Some BUILD_LIST_ITEM_COUNT) = Inl err \<longrightarrow>
      getArchiveAsync env (ArchiveBuildListSource base) w
        = Some (Inl err, Log_error (message err) (snd (newDate env w)))
      \<and> sameScript w (Log_error (message err) (snd (newDate env w))))
   \<and> (\<exists>s. fst (dispatch env (ArchiveLatestSource base) w) = Recurse s)
       = (getRecentBuildsForSubmissionAsync env (toAppPlatform (platform base)) (projectId base) None = Inr [])
   \<and> (\<exists>s. fst (dispatch env (ArchiveBuildListSource base) w) = Recurse s)
       = (\<exists>bs. getRecentBuildsForSubmissionAsync env (toAppPlatform (platform base)) (projectId base)
                (Some BUILD_LIST_ITEM_COUNT) = Inr bs
              \<and> (bs = [] \<or> list_all (\<lambda>b. updatedAt b < expiryAt env w) bs \<or> noBuildPicked env bs w))"
proof (intro conjI impI)
  assume g: "getRecentBuildsForSubmissionAsync env (toAppPlatform (platform base)) (projectId base) None = Inl err"
  have "dispatch env (ArchiveLatestSource base) w = (Done (Inl err), Log_error (message err) w)"
    by (simp add: handleLatestSourceAsync_def g)
  then show "getArchiveAsync env (ArchiveLatestSource base) w = Some (Inl err, Log_error (message err) w)"
    by (rule getArchiveAsync_Done)
next
  assume g: "getRecentBuildsForSubmissionAsync env (toAppPlatform (platform base)) (projectId base)
         (Some BUILD_LIST_ITEM_COUNT) = Inl err"
  have "dispatch env (ArchiveBuildListSource base) w
             = (Done (Inl err), Log_error (message err) (snd (newDate env w)))"
    by (simp add: handleBuildListSourceAsync_def g Let_def split: prod.splits)
  then show "getArchiveAsync env (ArchiveBuildListSource base) w
        = Some (Inl err, Log_error (message err) (snd (newDate env w)))"
    by (rule getArchiveAsync_Done)
  show "sameScript w (Log_error (message err) (snd (newDate env w)))"
    by (simp add: sameScript_def Log_error_def emit_def newDate_def)
next
  show "(\<exists>s. fst (dispatch env (ArchiveLatestSource base) w) = Recurse s)
       = (getRecentBuildsForSubmissionAsync env (toAppPlatform (platform base)) (projectId base) None = Inr [])"
    by (auto simp: handleLatestSourceAsync_def split: sum.splits list.splits)
next
  show "(\<exists>s. fst (dispatch env (ArchiveBuildListSource base) w) = Recurse s)
       = (\<exists>bs. getRecentBuildsForSubmissionAsync env (toAppPlatform (platform base)) (projectId base)
                (Some BUILD_LIST_ITEM_COUNT) = Inr bs
              \<and> (bs = [] \<or> list_all (\<lambda>b. updatedAt b < expiryAt env w) bs \<or> noBuildPicked env bs w))"
  proof (cases "getRecentBuildsForSubmissionAsync env (toAppPlatform (platform base)) (projectId base)
              (Some BUILD_LIST_ITEM_COUNT)")
    case (Inl err)
    then show ?thesis by (simp add: handleBuildListSourceAsync_def Let_def split: prod.splits)
  next
    case (Inr bs)
    show ?thesis
    proof (cases "bs = [] \<or> list_all (\<lambda>b. updatedAt b < expiryAt env w) bs")
      case True
      with Inr buildList_none_usable[OF Inr True] show ?thesis by auto
    next
      case False
      then have f: "bs \<noteq> []" "\<not> list_all (\<lambda>b. updatedAt b < expiryAt env w) bs" by simp_all
      have sel: "selects (snd (newDate env w)) = selects w" by (simp add: newDate_def)
      have "(\<exists>s. fst (dispatch env (ArchiveBuildListSource base) w) = Recurse s) = noBuildPicked env bs w"
        unfolding buildList_unfold[OF Inr f] promptSelect_read sel noBuildPicked_def
        by (simp split: asked.splits option.splits)
      with Inr False show ?thesis by simp
    qed
  qed
qed

text \<open>
  Claim C10 as stated fails in its second half. The fetch returns a recent build among the
  three, the user picks the last entry, and the build list source recurses on the prompt
  source: a fallback after a fetch with a usable build.
\<close>

theorem fallback_after_usable_builds_counterexample:
  "getRecentBuildsForSubmissionAsync env0 (toAppPlatform (platform (base0 False))) (projectId (base0 False))
     (Some BUILD_LIST_ITEM_COUNT) = Inr [freshBuild, oldBuild2, oldBuild1]
   \<and> \<not> updatedAt freshBuild < expiryAt env0 (world0 [Answer 3] [] [])
   \<and> fst (dispatch env0 (ArchiveBuildListSource (base0 False)) (world0 [Answer 3] [] []))
       = Recurse (ArchivePromptSource (base0 False))"
  by (simp add: resolver_defs fixture_defs expiryAt_def)

text \<open>
  An instance of the amended claim C10: a catalog that is down, a project without builds,
  a list of expired builds only, and a user who picks the last entry.
\<close>

theorem catalog_failure_is_logged_and_rethrown_witness:
  "getRecentBuildsForSubmissionAsync envDown (toAppPlatform (platform (base0 False))) (projectId (base0 False)) None
     = Inl (Error ''network request failed'')
   \<and> getArchiveAsync envDown (ArchiveLatestSource (base0 False)) (world0 [Answer 1] [] [])
       = Some (Inl (Error ''network request failed''),
               Log_error ''network request failed'' (world0 [Answer 1] [] []))
   \<and> getRecentBuildsForSubmissionAsync envDown (toAppPlatform (platform (base0 False))) (projectId (base0 False))
        (Some BUILD_LIST_ITEM_COUNT) = Inl (Error ''network request failed'')
   \<and> getArchiveAsync envDown (ArchiveBuildListSource (base0 False)) (world0 [Answer 1] [] [])
       = Some (Inl (Error ''network request failed''),
               Log_error ''network request failed'' (snd (newDate envDown (world0 [Answer 1] [] []))))
   \<and> fst (dispatch env0 (ArchiveLatestSource baseEmpty) (world0 [] [] []))
       = Recurse (ArchivePromptSource baseEmpty)
   \<and> getRecentBuildsForSubmissionAsync env0 (toAppPlatform IOS) ''none'' None = Inr []
   \<and> fst (dispatch envLate (ArchiveBuildListSource (base0 False)) (world0 [] [] []))
       = Recurse (ArchivePromptSource (base0 False))
   \<and> getRecentBuildsForSubmissionAsync env0 (toAppPlatform (platform (base0 False))) (projectId (base0 False))
        (Some BUILD_LIST_ITEM_COUNT) = Inr [freshBuild, oldBuild2, oldBuild1]
   \<and> noBuildPicked env0 [freshBuild, oldBuild2, oldBuild1] (world0 [Answer 3] [] [])
   \<and> (\<exists>s. fst (dispatch env0 (ArchiveBuildListSource (base0 False)) (world0 [Answer 3] [] [])) = Recurse s)"
proof -
  have q: "fst (dispatch envLate (ArchiveBuildListSource (base0 False)) (world0 [] [] []))
       = Recurse (ArchivePromptSource (base0 False))"
    by (simp add: handleBuildListSourceAsync_def getRecentBuildsForSubmissionAsync_def newestFirst_def
          newDate_def expiryDateOf_def BUILD_LIST_ITEM_COUNT_def fixture_defs)
  have g: "\<And>l. getRecentBuildsForSubmissionAsync envDown (toAppPlatform (platform (base0 False))) (projectId (base0 False)) l
     = Inl (Error ''network request failed'')"
    by (simp add: getRecentBuildsForSubmissionAsync_def envDown_def)
  have r: "fst (dispatch env0 (ArchiveLatestSource baseEmpty) (world0 [] [] []))
       = Recurse (ArchivePromptSource baseEmpty)"
    by (simp add: handleLatestSourceAsync_def getRecentBuildsForSubmissionAsync_def newestFirst_def fixture_defs)
  have n: "noBuildPicked env0 [freshBuild, oldBuild2, oldBuild1] (world0 [Answer 3] [] [])"
    by (simp add: noBuildPicked_def buildChoices_def formatBuildChoice_def noneOfTheAbove_def
          expiryAt_def expiryDateOf_def fixture_defs)
  have e: "getRecentBuildsForSubmissionAsync env0 (toAppPlatform IOS) ''none'' None = Inr []"
    using catalog_failure_is_logged_and_rethrown[where env = env0 and base = baseEmpty and w = "world0 [] [] []",
            THEN conjunct2, THEN conjunct2, THEN conjunct1] r
    by (auto simp: baseEmpty_def)
  have x: "\<exists>s. fst (dispatch env0 (ArchiveBuildListSource (base0 False)) (world0 [Answer 3] [] [])) = Recurse s"
    using catalog_failure_is_logged_and_rethrown[where env = env0 and base = "base0 False"
            and w = "world0 [Answer 3] [] []", THEN conjunct2, THEN conjunct2, THEN conjunct2]
          recent0[of False] n
    by blast
  from catalog_failure_is_logged_and_rethrown[where env = envDown and base = "base0 False"
         and err = "Error ''network request failed''" and w = "world0 [Answer 1] [] []"]
       g r q e n x recent0[of False]
  show ?thesis by simp
qed

subsection \<open>URLs of build details pages\<close>

lemma askIf_nonInteractive:
  "nonInteractive base \<Longrightarrow>
   askIfUseBuildIdFromUrlAsync base u i w =
     (Got False, Log_warn ''Proceeding because you've run this command in non-interactive mode.'' (afterWarnings u w))"
  by (simp add: askIfUseBuildIdFromUrlAsync_def afterWarnings_def Let_def)

lemma askIf_confirmed:
  "\<not> nonInteractive base \<Longrightarrow> confirms w = Answer True # cs \<Longrightarrow>
   askIfUseBuildIdFromUrlAsync base u i w = (Got True, afterConfirm u i cs w)"
  by (simp add: askIfUseBuildIdFromUrlAsync_def afterWarnings_def afterConfirm_def Let_def
        confirmAsync_def emit_def Log_warn_def)

lemma askIf_declined:
  "\<not> nonInteractive base \<Longrightarrow> confirms w = Answer False # cs \<Longrightarrow>
   askIfUseBuildIdFromUrlAsync base u i w =
     (Got False, Log_warn ''The submission will most probably fail.'' (afterConfirm u i cs w))"
  by (simp add: askIfUseBuildIdFromUrlAsync_def afterWarnings_def afterConfirm_def Let_def
        confirmAsync_def emit_def Log_warn_def)

text \<open>
  Claim C8, as amended. For a URL that validates and in which \<^verbatim>\<open>isBuildDetailsPage\<close> finds
  an id: in non-interactive mode nothing is asked and the archive of the URL is returned;
  otherwise the user is asked, declining returns the archive of the URL, and confirming
  recurses on the build id source with that id, which returns the archive of that build
  when the catalog has a build of the requested platform under the id.
\<close>

theorem build_details_page_url:
  assumes "validateUrl env u" and "isBuildDetailsPage u = Some buildId"
  shows "(nonInteractive base \<longrightarrow>
            getArchiveAsync env (ArchiveUrlSource base u) w
              = Some (Inr \<lparr>build = None, source = ArchiveUrlSource base u, url = Some u\<rparr>,
                      Log_warn ''Proceeding because you've run this command in non-interactive mode.''
                        (afterWarnings u w)))
       \<and> (\<not> nonInteractive base \<and> confirms w = Answer False # cs \<longrightarrow>
            getArchiveAsync env (ArchiveUrlSource base u) w
              = Some (Inr \<lparr>build = None, source = ArchiveUrlSource base u, url = Some u\<rparr>,
                      Log_warn ''The submission will most probably fail.'' (afterConfirm u buildId cs w)))
       \<and> (\<not> nonInteractive base \<and> confirms w = Answer True # cs \<longrightarrow>
            getArchiveAsync env (ArchiveUrlSource base u) w
              = getArchiveAsync env (ArchiveBuildIdSource base buildId) (afterConfirm u buildId cs w))
       \<and> (\<not> nonInteractive base \<and> confirms w = Answer True # cs
           \<and> byIdAsync env buildId = Inr b \<and> platform_b b = toAppPlatform (platform base) \<longrightarrow>
            getArchiveAsync env (ArchiveUrlSource base u) w
              = Some (Inr \<lparr>build = Some b, source = ArchiveBuildIdSource base buildId, url = None\<rparr>,
                      afterConfirm u buildId cs w))"
proof (intro conjI impI)
  assume "nonInteractive base"
  then have "dispatch env (ArchiveUrlSource base u) w
      = (Done (Inr \<lparr>build = None, source = ArchiveUrlSource base u, url = Some u\<rparr>),
         Log_warn ''Proceeding because you've run this command in non-interactive mode.'' (afterWarnings u w))"
    using assms by (simp add: handleUrlSourceAsync_def askIf_nonInteractive)
  then show "getArchiveAsync env (ArchiveUrlSource base u) w
              = Some (Inr \<lparr>build = None, source = ArchiveUrlSource base u, url = Some u\<rparr>,
                      Log_warn ''Proceeding because you've run this command in non-interactive mode.''
                        (afterWarnings u w))"
    by (rule getArchiveAsync_Done)
next
  assume "\<not> nonInteractive base \<and> confirms w = Answer False # cs"
  then have "dispatch env (ArchiveUrlSource base u) w
      = (Done (Inr \<lparr>build = None, source = ArchiveUrlSource base u, url = Some u\<rparr>),
         Log_warn ''The submission will most probably fail.'' (afterConfirm u buildId cs w))"
    using assms by (simp add: handleUrlSourceAsync_def askIf_declined)
  then show "getArchiveAsync env (ArchiveUrlSource base u) w
              = Some (Inr \<lparr>build = None, source = ArchiveUrlSource base u, url = Some u\<rparr>,
                      Log_warn ''The submission will most probably fail.'' (afterConfirm u buildId cs w))"
    by (rule getArchiveAsync_Done)
next
  assume "\<not> nonInteractive base \<and> confirms w = Answer True # cs"
  then have "dispatch env (ArchiveUrlSource base u) w
      = (Recurse (ArchiveBuildIdSource base buildId), afterConfirm u buildId cs w)"
    using assms by (simp add: handleUrlSourceAsync_def askIf_confirmed)
  then show "getArchiveAsync env (ArchiveUrlSource base u) w
              = getArchiveAsync env (ArchiveBuildIdSource base buildId) (afterConfirm u buildId cs w)"
    by (rule getArchiveAsync_Recurse)
next
  assume h: "\<not> nonInteractive base \<and> confirms w = Answer True # cs
           \<and> byIdAsync env buildId = Inr b \<and> platform_b b = toAppPlatform (platform base)"
  then have 1: "dispatch env (ArchiveUrlSource base u) w
      = (Recurse (ArchiveBuildIdSource base buildId), afterConfirm u buildId cs w)"
    using assms by (simp add: handleUrlSourceAsync_def askIf_confirmed)
  from h have 2: "dispatch env (ArchiveBuildIdSource base buildId) (afterConfirm u buildId cs w)
      = (Done (Inr \<lparr>build = Some b, source = ArchiveBuildIdSource base buildId, url = None\<rparr>),
         afterConfirm u buildId cs w)"
    by (simp add: handleBuildIdSourceAsync_def)
  from getArchiveAsync_Recurse[OF 1] getArchiveAsync_Done[OF 2]
  show "getArchiveAsync env (ArchiveUrlSource base u) w
              = Some (Inr \<lparr>build = Some b, source = ArchiveBuildIdSource base buildId, url = None\<rparr>,
                      afterConfirm u buildId cs w)"
    by simp
qed

lemma detailsUrl_id: "isBuildDetailsPage detailsUrl = Some ''3fa85f64-5717-4562-b3fc-2c963f66afa6''"
  unfolding detailsUrl_def by code_simp

lemma unknownDetailsUrl_id: "isBuildDetailsPage unknownDetailsUrl = Some ''9c0d1f6e-1111-4222-8333-444455556666''"
  unfolding unknownDetailsUrl_def by code_simp

lemma detailsUrl_valid: "validateUrl env0 detailsUrl" "validateUrl env0 unknownDetailsUrl"
  by (simp_all add: validateUrl_def env0_def protocolOf_def detailsUrl_def unknownDetailsUrl_def)

text \<open>
  Claim C8 as stated fails. The user confirms, the catalog has no build under the id, the
  build id source falls back to the prompt, and the run returns the archive of a URL typed
  there: no archive of that build.
\<close>

theorem build_details_page_url_counterexample:
  "validateUrl env0 unknownDetailsUrl
   \<and> isBuildDetailsPage unknownDetailsUrl = Some ''9c0d1f6e-1111-4222-8333-444455556666''
   \<and> \<not> nonInteractive (base0 False)
   \<and> map_option fst (getArchiveAsync env0 (ArchiveUrlSource (base0 False) unknownDetailsUrl)
          (world0 [Answer 1] [Answer ''https://a.b/c.aab''] [Answer True]))
       = Some (Inr \<lparr>build = None, source = ArchiveUrlSource (base0 False) ''https://a.b/c.aab'',
                    url = Some ''https://a.b/c.aab''\<rparr>)"
proof -
  have c: "confirms (world0 [Answer 1] [Answer ''https://a.b/c.aab''] [Answer True]) = Answer True # []"
    by (simp add: world0_def)
  have n: "\<not> nonInteractive (base0 False)" by (simp add: base0_def)
  have 1: "dispatch env0 (ArchiveUrlSource (base0 False) unknownDetailsUrl)
             (world0 [Answer 1] [Answer ''https://a.b/c.aab''] [Answer True])
      = (Recurse (ArchiveBuildIdSource (base0 False) ''9c0d1f6e-1111-4222-8333-444455556666''),
         afterConfirm unknownDetailsUrl ''9c0d1f6e-1111-4222-8333-444455556666'' []
           (world0 [Answer 1] [Answer ''https://a.b/c.aab''] [Answer True]))"
    using detailsUrl_valid(2) unknownDetailsUrl_id n c
    by (simp add: handleUrlSourceAsync_def askIf_confirmed)
  have 2: "map_option fst (getArchiveAsync env0 (ArchiveBuildIdSource (base0 False) ''9c0d1f6e-1111-4222-8333-444455556666'')
         (afterConfirm unknownDetailsUrl ''9c0d1f6e-1111-4222-8333-444455556666'' []
           (world0 [Answer 1] [Answer ''https://a.b/c.aab''] [Answer True])))
       = Some (Inr \<lparr>build = None, source = ArchiveUrlSource (base0 False) ''https://a.b/c.aab'',
                    url = Some ''https://a.b/c.aab''\<rparr>)"
    by (simp add: getArchiveAsync.simps resolver_defs fixture_defs isBuildDetailsPage_def
          afterConfirm_def afterWarnings_def)
  from getArchiveAsync_Recurse[OF 1] 2 detailsUrl_valid(2) unknownDetailsUrl_id n show ?thesis by simp
qed

text \<open>
  An instance of the amended claim C8, on the URL of the spec's example: confirming,
  declining, and non-interactive mode.
\<close>

theorem build_details_page_url_witness:
  "validateUrl env0 detailsUrl
   \<and> isBuildDetailsPage detailsUrl = Some ''3fa85f64-5717-4562-b3fc-2c963f66afa6''
   \<and> map_option fst (getArchiveAsync env0 (ArchiveUrlSource (base0 False) detailsUrl) (world0 [] [] [Answer True]))
       = Some (Inr \<lparr>build = Some freshBuild,
                    source = ArchiveBuildIdSource (base0 False) ''3fa85f64-5717-4562-b3fc-2c963f66afa6'',
                    url = None\<rparr>)
   \<and> map_option fst (getArchiveAsync env0 (ArchiveUrlSource (base0 False) detailsUrl) (world0 [] [] [Answer False]))
       = Some (Inr \<lparr>build = None, source = ArchiveUrlSource (base0 False) detailsUrl, url = Some detailsUrl\<rparr>)
   \<and> map_option fst (getArchiveAsync env0 (ArchiveUrlSource (base0 True) detailsUrl) (world0 [] [] [Answer True]))
       = Some (Inr \<lparr>build = None, source = ArchiveUrlSource (base0 True) detailsUrl, url = Some detailsUrl\<rparr>)"
proof -
  have f: "byIdAsync env0 ''3fa85f64-5717-4562-b3fc-2c963f66afa6'' = Inr freshBuild
           \<and> platform_b freshBuild = toAppPlatform (platform (base0 False))"
    by (simp add: fixture_defs)
  have c: "\<And>b. confirms (world0 [] [] [Answer b]) = Answer b # []" by (simp add: world0_def)
  have n: "\<not> nonInteractive (base0 False)" "nonInteractive (base0 True)" by (simp_all add: base0_def)
  note t = build_details_page_url[OF detailsUrl_valid(1) detailsUrl_id]
  have 1: "getArchiveAsync env0 (ArchiveUrlSource (base0 False) detailsUrl) (world0 [] [] [Answer True])
      = Some (Inr \<lparr>build = Some freshBuild,
                    source = ArchiveBuildIdSource (base0 False) ''3fa85f64-5717-4562-b3fc-2c963f66afa6'',
                    url = None\<rparr>,
              afterConfirm detailsUrl ''3fa85f64-5717-4562-b3fc-2c963f66afa6'' [] (world0 [] [] [Answer True]))"
    using t[of "base0 False" "world0 [] [] [Answer True]" "[]" freshBuild] f c n by blast
  have 2: "getArchiveAsync env0 (ArchiveUrlSource (base0 False) detailsUrl) (world0 [] [] [Answer False])
      = Some (Inr \<lparr>build = None, source = ArchiveUrlSource (base0 False) detailsUrl, url = Some detailsUrl\<rparr>,
              Log_warn ''The submission will most probably fail.''
                (afterConfirm detailsUrl ''3fa85f64-5717-4562-b3fc-2c963f66afa6'' [] (world0 [] [] [Answer False])))"
    using t[of "base0 False" "world0 [] [] [Answer False]" "[]" freshBuild] c n by blast
  have 3: "getArchiveAsync env0 (ArchiveUrlSource (base0 True) detailsUrl) (world0 [] [] [Answer True])
      = Some (Inr \<lparr>build = None, source = ArchiveUrlSource (base0 True) detailsUrl, url = Some detailsUrl\<rparr>,
              Log_warn ''Proceeding because you've run this command in non-interactive mode.''
                (afterWarnings detailsUrl (world0 [] [] [Answer True])))"
    using t[of "base0 True" "world0 [] [] [Answer True]" "[]" freshBuild] n by blast
  show ?thesis
    unfolding 1 2 3 using detailsUrl_valid(1) detailsUrl_id by simp
qed

subsection \<open>The polling loop\<close>

lemma waitLoop_timeout:
  "\<not> time \<le> endTime \<Longrightarrow>
   waitLoop sv ids iv endTime time st = Some (Inl TIMEOUT, spinner_call (Warn ''Timed out'') st)"
  by (subst waitLoop.simps) simp

lemma waitLoop_tick:
  "time \<le> endTime \<Longrightarrow>
   waitLoop sv ids iv endTime time st =
     (case decide (fst (fetchAll sv ids st)) (snd (fetchAll sv ids st)) of
        (Return builds, st2) \<Rightarrow> Some (Inr builds, st2)
      | (Throw e, st2) \<Rightarrow> Some (Inl e, st2)
      | (Continue, st2) \<Rightarrow> waitLoop sv ids iv endTime (nowMs st2) (sleepAsync (iv * 1000) st2))"
  by (subst waitLoop.simps) simp

lemma filter_all: "(length (filter P xs) = length xs) = list_all P xs"
proof (induction xs)
  case Nil
  show ?case by simp
next
  case (Cons x xs)
  have "length (filter P xs) \<le> length xs" by simp
  then have "length (filter P xs) \<noteq> Suc (length xs)" by linarith
  with Cons show ?case by auto
qed

lemma all_finished_ended:
  "countStatus Finished builds = length builds \<Longrightarrow> list_all endedSlot builds"
  unfolding countStatus_def filter_all
  by (induction builds) (auto simp: endedSlot_def split: option.splits)

lemma multiple_verdict:
  "fst (multiple builds st) = (if list_all endedSlot builds then Return builds else Continue)"
  using all_finished_ended[of builds]
  by (auto simp: multiple_def filter_all)

lemma single_verdict:
  "fst (single b st) =
     (case fault b of Some e \<Rightarrow> Throw e | None \<Rightarrow> if endedSlot b then Return [b] else Continue)"
  by (auto simp: single_def fault_def endedSlot_def split: option.splits BuildStatus.splits)

lemma decide_verdict: "fst (decide builds st) = verdictOf builds"
proof (cases builds)
  case Nil
  then show ?thesis by (simp add: decide_def verdictOf_def multiple_verdict)
next
  case (Cons b bs)
  show ?thesis
  proof (cases bs)
    case Nil
    with Cons show ?thesis by (simp add: decide_def verdictOf_def single_verdict split: option.splits)
  next
    case (Cons c cs)
    with \<open>builds = b # bs\<close> show ?thesis
      by (simp add: decide_def verdictOf_def multiple_verdict)
  qed
qed

lemma decide_clock: "nowMs (snd (decide builds st)) = nowMs st \<and> ticks (snd (decide builds st)) = ticks st"
  by (auto simp: decide_def single_def multiple_def spinner_call_def
      split: list.splits option.splits BuildStatus.splits)

lemma verdictOf_faultOf:
  "verdictOf builds =
     (case faultOf builds of
        Some e \<Rightarrow> Throw e
      | None \<Rightarrow> if list_all endedSlot builds then Return builds else Continue)"
  by (simp add: verdictOf_def faultOf_def)

lemma waitLoop_verdict:
  assumes "time \<le> endTime"
  shows "waitLoop sv ids iv endTime time st =
     (case verdictOf (map (snapshot sv (ticks st)) ids) of
        Return builds \<Rightarrow> Some (Inr builds, afterTick sv ids st)
      | Throw e \<Rightarrow> Some (Inl e, afterTick sv ids st)
      | Continue \<Rightarrow>
          waitLoop sv ids iv endTime (nowMs (afterTick sv ids st))
            (sleepAsync (iv * 1000) (afterTick sv ids st)))"
proof -
  obtain v st2 where d: "decide (fst (fetchAll sv ids st)) (snd (fetchAll sv ids st)) = (v, st2)"
    by force
  have v: "v = verdictOf (map (snapshot sv (ticks st)) ids)"
    using decide_verdict[of "fst (fetchAll sv ids st)" "snd (fetchAll sv ids st)"] d
    by (simp add: fetchAll_def)
  have s: "afterTick sv ids st = st2" using d by (simp add: afterTick_def)
  show ?thesis
    unfolding waitLoop_tick[OF assms] d s v[symmetric]
    by (cases v) simp_all
qed

text \<open>
  Claim C2, as amended. In a tick inside the window, whatever the number of jobs: without
  a fault the loop returns the snapshots when every slot holds a terminal snapshot and goes
  on to the next tick otherwise; a fault is thrown. A fault exists only when exactly one
  job is tracked (\<^verbatim>\<open>Errored\<close> without a payload, or an unknown status).
\<close>

theorem polling_termination_logic:
  assumes "time \<le> endTime"
  shows "(faultOf (map (snapshot sv (ticks st)) ids) = None \<longrightarrow>
           waitLoop sv ids iv endTime time st =
             (if list_all endedSlot (map (snapshot sv (ticks st)) ids)
              then Some (Inr (map (snapshot sv (ticks st)) ids), afterTick sv ids st)
              else waitLoop sv ids iv endTime (nowMs (afterTick sv ids st))
                     (sleepAsync (iv * 1000) (afterTick sv ids st))))
       \<and> (faultOf (map (snapshot sv (ticks st)) ids) = Some e \<longrightarrow>
           waitLoop sv ids iv endTime time st = Some (Inl e, afterTick sv ids st))
       \<and> (length ids \<noteq> 1 \<longrightarrow> faultOf (map (snapshot sv (ticks st)) ids) = None)"
proof -
  have "length ids \<noteq> 1 \<longrightarrow> faultOf (map (snapshot sv (ticks st)) ids) = None"
    by (cases ids; cases "tl ids") (auto simp: faultOf_def)
  then show ?thesis
    unfolding waitLoop_verdict[OF assms] verdictOf_faultOf by simp
qed

text \<open>
  Claim C2 as stated fails. One job whose snapshot is \<^verbatim>\<open>Errored\<close> without a payload is
  terminal, and the loop throws instead of returning; the same snapshot tracked twice makes
  the loop return.
\<close>

theorem polling_termination_logic_counterexample:
  "endedSlot (Some (snapWith Errored None))
   \<and> map_option fst (waitForBuildEndAsync (svConst (snapWith Errored None)) [''a''] 3600 30 tracker0)
       = Some (Inl (Error ''Standalone build failed!''))
   \<and> map_option fst (waitForBuildEndAsync (svConst (snapWith Errored None)) [''a'', ''a''] 3600 30 tracker0)
       = Some (Inr [Some (snapWith Errored None), Some (snapWith Errored None)])"
  by (simp add: waitLoop.simps tracker_defs tracker_fixture_defs)

text \<open>
  An instance of the amended claim C2: two jobs, both terminal at the first tick.
\<close>

theorem polling_termination_logic_witness:
  "nowMs tracker0 \<le> 3600000
   \<and> faultOf (map (snapshot svMixed (ticks tracker0)) [''a'', ''b'']) = None
   \<and> list_all endedSlot (map (snapshot svMixed (ticks tracker0)) [''a'', ''b''])
   \<and> waitLoop svMixed [''a'', ''b''] 30 3600000 (nowMs tracker0) tracker0
       = Some (Inr [Some (snapWith Errored None), Some (snapWith Finished None)],
               afterTick svMixed [''a'', ''b''] tracker0)
   \<and> faultOf (map (snapshot svMixed (ticks tracker0)) [''a'']) = Some (Error ''Standalone build failed!'')
   \<and> waitLoop svMixed [''a''] 30 3600000 (nowMs tracker0) tracker0
       = Some (Inl (Error ''Standalone build failed!''), afterTick svMixed [''a''] tracker0)"
proof -
  have g: "faultOf (map (snapshot svMixed (ticks tracker0)) [''a'']) = Some (Error ''Standalone build failed!'')"
    by (simp add: faultOf_def fault_def snapshot_def tracker_fixture_defs)
  have t: "nowMs tracker0 \<le> 3600000" by (simp add: tracker0_def)
  have f: "faultOf (map (snapshot svMixed (ticks tracker0)) [''a'', ''b'']) = None"
    by (simp add: faultOf_def)
  have e: "list_all endedSlot (map (snapshot svMixed (ticks tracker0)) [''a'', ''b''])"
    by (simp add: endedSlot_def snapshot_def tracker_fixture_defs)
  have m: "map (snapshot svMixed (ticks tracker0)) [''a'', ''b'']
             = [Some (snapWith Errored None), Some (snapWith Finished None)]"
    by (simp add: snapshot_def svMixed_def)
  from polling_termination_logic[OF t, of svMixed tracker0 "[''a'', ''b'']" 30, THEN conjunct1]
       polling_termination_logic[OF t, where sv = svMixed and st = tracker0 and ids = "[''a'']"
         and e = "Error ''Standalone build failed!''" and iv = 30, THEN conjunct2, THEN conjunct1]
       f e m t g
  show ?thesis by simp
qed

lemma afterTick_clock:
  "nowMs (afterTick sv ids st) = nowMs st + int (fetchMs sv (ticks st))"
  "ticks (afterTick sv ids st) = Suc (ticks st)"
  by (simp_all add: afterTick_def decide_clock fetchAll_def)

lemma verdictOf_Return:
  "verdictOf builds = Return bs \<Longrightarrow> bs = builds \<and> list_all endedSlot builds"
  by (auto simp: verdictOf_def split: option.splits if_splits)

lemma waitLoop_result:
  assumes "waitLoop sv ids iv endTime time st = Some y"
  shows "\<forall>bs st'. y = (Inr bs, st') \<longrightarrow>
           0 < ticks st' \<and> bs = map (snapshot sv (ticks st' - 1)) ids \<and> list_all endedSlot bs"
proof (rule waitLoop.raw_induct
    [where P = "\<lambda>sv ids iv endTime time st y. \<forall>bs st'. y = (Inr bs, st') \<longrightarrow>
           0 < ticks st' \<and> bs = map (snapshot sv (ticks st' - 1)) ids \<and> list_all endedSlot bs",
     OF _ assms], goal_cases)
  case (1 loop sv ids iv endTime time st y)
  show ?case
  proof (cases "time \<le> endTime")
    case False
    with 1(2) show ?thesis by auto
  next
    case True
    obtain v st2 where d: "decide (fst (fetchAll sv ids st)) (snd (fetchAll sv ids st)) = (v, st2)"
      by force
    have v: "v = verdictOf (map (snapshot sv (ticks st)) ids)"
      using decide_verdict[of "fst (fetchAll sv ids st)" "snd (fetchAll sv ids st)"] d
      by (simp add: fetchAll_def)
    have s: "st2 = afterTick sv ids st" using d by (simp add: afterTick_def)
    show ?thesis
    proof (cases v)
      case (Return bs)
      with v have b: "bs = map (snapshot sv (ticks st)) ids"
        and e: "list_all endedSlot (map (snapshot sv (ticks st)) ids)"
        using verdictOf_Return[of "map (snapshot sv (ticks st)) ids" bs] by simp_all
      from 1(2) True d Return have "y = (Inr bs, st2)" by simp
      with b e show ?thesis unfolding s by (simp add: afterTick_clock)
    next
      case (Throw e)
      with 1(2) True d show ?thesis by auto
    next
      case Continue
      with 1(2) True d have "loop sv ids iv endTime (nowMs st2) (sleepAsync (iv * 1000) st2) = Some y"
        by simp
      from 1(1)[OF this] show ?thesis .
    qed
  qed
qed

text \<open>
  Claim C4. When \<^verbatim>\<open>waitForBuildEndAsync\<close> returns, it returns one slot per id, in the
  order of the ids: slot \<open>k\<close> is the snapshot of the \<open>k\<close>-th id as fetched in the last
  tick made. (Every slot then holds a terminal snapshot.)
\<close>

theorem awaitCompletion_slots:
  assumes "waitForBuildEndAsync sv ids timeoutSec intervalSec st = Some (Inr bs, st')"
  shows "length bs = length ids
       \<and> 0 < ticks st'
       \<and> (\<forall>k < length ids. bs ! k = snapshot sv (ticks st' - 1) (ids ! k))
       \<and> list_all endedSlot bs"
proof -
  from assms waitLoop_result
  have r: "0 < ticks st' \<and> bs = map (snapshot sv (ticks st' - 1)) ids \<and> list_all endedSlot bs"
    unfolding waitForBuildEndAsync_def Let_def by blast
  then have "length bs = length ids"
    and "\<forall>k < length ids. bs ! k = snapshot sv (ticks st' - 1) (ids ! k)" by simp_all
  with r show ?thesis by blast
qed

text \<open>
  An instance of claim C4: two jobs that finish in the fourth tick.
\<close>

theorem awaitCompletion_slots_witness:
  "waitForBuildEndAsync svProgress [''a'', ''b''] 3600 30 tracker0
     = Some (Inr [Some (snapWith Finished None), Some (snapWith Finished None)],
             the (map_option snd (waitForBuildEndAsync svProgress [''a'', ''b''] 3600 30 tracker0)))
   \<and> ticks (the (map_option snd (waitForBuildEndAsync svProgress [''a'', ''b''] 3600 30 tracker0))) = 4
   \<and> snapshot svProgress 3 ''b'' = Some (snapWith Finished None)"
proof -
  have 1: "map_option fst (waitForBuildEndAsync svProgress [''a'', ''b''] 3600 30 tracker0)
             = Some (Inr [Some (snapWith Finished None), Some (snapWith Finished None)])"
    by (simp add: waitLoop.simps tracker_defs tracker_fixture_defs showNat.simps)
  have 2: "map_option (ticks \<circ> snd) (waitForBuildEndAsync svProgress [''a'', ''b''] 3600 30 tracker0) = Some 4"
    by (simp add: waitLoop.simps tracker_defs tracker_fixture_defs showNat.simps)
  from 1 obtain st' where r: "waitForBuildEndAsync svProgress [''a'', ''b''] 3600 30 tracker0
     = Some (Inr [Some (snapWith Finished None), Some (snapWith Finished None)], st')" by auto
  with 2 have t: "ticks st' = 4" by simp
  from awaitCompletion_slots[OF r] t
  have "snapshot svProgress 3 ''b'' = Some (snapWith Finished None)" by auto
  with r t show ?thesis by simp
qed

lemma fault_not_TIMEOUT: "fault b \<noteq> Some TIMEOUT"
  by (simp add: fault_def TIMEOUT_def split: option.splits BuildStatus.splits)

lemma verdictOf_Throw: "verdictOf builds = Throw e \<Longrightarrow> faultOf builds = Some e"
  by (auto simp: verdictOf_faultOf split: option.splits if_splits)

lemma faultOf_single: "faultOf builds = Some e \<Longrightarrow> length builds = 1 \<and> e \<noteq> TIMEOUT"
  using fault_not_TIMEOUT
  by (cases builds; cases "tl builds") (auto simp: faultOf_def)

lemma waitLoop_errors:
  assumes "waitLoop sv ids iv endTime time st = Some y"
  shows "\<forall>e st'. y = (Inl e, st') \<longrightarrow>
           (e = TIMEOUT \<and> (time \<le> nowMs st \<longrightarrow> endTime < nowMs st'))
           \<or> (length ids = 1 \<and> e \<noteq> TIMEOUT)"
proof (rule waitLoop.raw_induct
    [where P = "\<lambda>sv ids iv endTime time st y. \<forall>e st'. y = (Inl e, st') \<longrightarrow>
           (e = TIMEOUT \<and> (time \<le> nowMs st \<longrightarrow> endTime < nowMs st'))
           \<or> (length ids = 1 \<and> e \<noteq> TIMEOUT)",
     OF _ assms], goal_cases)
  case (1 loop sv ids iv endTime time st y)
  show ?case
  proof (cases "time \<le> endTime")
    case False
    with 1(2) show ?thesis by (auto simp: spinner_call_def)
  next
    case True
    obtain v st2 where d: "decide (fst (fetchAll sv ids st)) (snd (fetchAll sv ids st)) = (v, st2)"
      by force
    have v: "v = verdictOf (map (snapshot sv (ticks st)) ids)"
      using decide_verdict[of "fst (fetchAll sv ids st)" "snd (fetchAll sv ids st)"] d
      by (simp add: fetchAll_def)
    have s: "st2 = afterTick sv ids st" using d by (simp add: afterTick_def)
    show ?thesis
    proof (cases v)
      case (Return bs)
      with 1(2) True d show ?thesis by auto
    next
      case (Throw e)
      with v have "length ids = 1 \<and> e \<noteq> TIMEOUT"
        using faultOf_single[OF verdictOf_Throw, of "map (snapshot sv (ticks st)) ids" e] by simp
      moreover from 1(2) True d Throw have "y = (Inl e, st2)" by simp
      ultimately show ?thesis by simp
    next
      case Continue
      with 1(2) True d have "loop sv ids iv endTime (nowMs st2) (sleepAsync (iv * 1000) st2) = Some y"
        by simp
      from 1(1)[OF this] show ?thesis by (auto simp: sleepAsync_def)
    qed
  qed
qed

lemma stuck_inner:
  assumes iv: "0 < iv" and stuck: "\<forall>n. verdictOf (map (snapshot sv n) ids) = Continue"
  shows "nowMs st = time + iv * 1000 \<Longrightarrow> time \<le> endTime \<Longrightarrow>
         \<exists>st'. waitLoop sv ids iv endTime time st = Some (Inl TIMEOUT, st')
              \<and> endTime + iv * 1000 < nowMs st'
              \<and> nowMs st' \<le> endTime + 2 * (iv * 1000) + int (fetchMs sv (ticks st' - 1))"
proof (induction "nat (endTime + 1 - time)" arbitrary: time st rule: less_induct)
  case less
  let ?at = "afterTick sv ids st"
  let ?t = "nowMs ?at"
  have t: "?t = time + iv * 1000 + int (fetchMs sv (ticks st))"
    using less.prems(1) by (simp add: afterTick_clock)
  have step: "waitLoop sv ids iv endTime time st
                = waitLoop sv ids iv endTime ?t (sleepAsync (iv * 1000) ?at)"
    using waitLoop_verdict[OF less.prems(2), of sv ids iv st] stuck by simp
  have inv: "nowMs (sleepAsync (iv * 1000) ?at) = ?t + iv * 1000"
    using iv by (simp add: sleepAsync_def)
  show ?case
  proof (cases "?t \<le> endTime")
    case True
    have "nat (endTime + 1 - ?t) < nat (endTime + 1 - time)"
      using t iv less.prems(2) by simp
    from less.hyps[OF this inv True] step show ?thesis by simp
  next
    case False
    have r: "waitLoop sv ids iv endTime ?t (sleepAsync (iv * 1000) ?at)
           = Some (Inl TIMEOUT, spinner_call (Warn ''Timed out'') (sleepAsync (iv * 1000) ?at))"
      using False by (rule waitLoop_timeout)
    have n: "nowMs (spinner_call (Warn ''Timed out'') (sleepAsync (iv * 1000) ?at)) = ?t + iv * 1000"
      using inv by (simp add: spinner_call_def)
    have k: "ticks (spinner_call (Warn ''Timed out'') (sleepAsync (iv * 1000) ?at)) = Suc (ticks st)"
      by (simp add: spinner_call_def sleepAsync_def afterTick_clock)
    show ?thesis
      unfolding step r using n k t False less.prems(2) by simp
  qed
qed

lemma stuck_outer:
  assumes "0 \<le> timeoutSec" and iv: "0 < iv" and stuck: "\<forall>n. verdictOf (map (snapshot sv n) ids) = Continue"
    and "endTime = nowMs st + timeoutSec * 1000"
  shows "\<exists>st'. waitLoop sv ids iv endTime (nowMs st) st = Some (Inl TIMEOUT, st')
              \<and> endTime + iv * 1000 < nowMs st'
              \<and> nowMs st' \<le> endTime + 2 * (iv * 1000) + int (fetchMs sv (ticks st' - 1))"
proof -
  let ?at = "afterTick sv ids st"
  let ?t = "nowMs ?at"
  have le: "nowMs st \<le> endTime" using assms(1,4) by simp
  have t: "?t = nowMs st + int (fetchMs sv (ticks st))" by (simp add: afterTick_clock)
  have step: "waitLoop sv ids iv endTime (nowMs st) st
                = waitLoop sv ids iv endTime ?t (sleepAsync (iv * 1000) ?at)"
    using waitLoop_verdict[OF le, of sv ids iv st] stuck by simp
  have inv: "nowMs (sleepAsync (iv * 1000) ?at) = ?t + iv * 1000"
    using iv by (simp add: sleepAsync_def)
  show ?thesis
  proof (cases "?t \<le> endTime")
    case True
    from stuck_inner[OF iv stuck inv True] step show ?thesis by simp
  next
    case False
    have r: "waitLoop sv ids iv endTime ?t (sleepAsync (iv * 1000) ?at)
           = Some (Inl TIMEOUT, spinner_call (Warn ''Timed out'') (sleepAsync (iv * 1000) ?at))"
      using False by (rule waitLoop_timeout)
    have n: "nowMs (spinner_call (Warn ''Timed out'') (sleepAsync (iv * 1000) ?at)) = ?t + iv * 1000"
      using inv by (simp add: spinner_call_def)
    have k: "ticks (spinner_call (Warn ''Timed out'') (sleepAsync (iv * 1000) ?at)) = Suc (ticks st)"
      by (simp add: spinner_call_def sleepAsync_def afterTick_clock)
    show ?thesis
      unfolding step r using n k t False le iv by simp
  qed
qed

text \<open>
  Claim C5, as amended. When the timeout is not negative, the interval is positive and the
  loop goes on at every tick, \<^verbatim>\<open>waitForBuildEndAsync\<close> throws the timeout; it does so after
  one more sleep than the clock reading that ended the window, so later than one interval
  after the end of the window, and no later than two intervals and the last fetch after
  it. Whatever the service does, the timeout is thrown only with the clock past the window.
\<close>

theorem timeout_when_stuck:
  "(0 \<le> timeoutSec \<and> 0 < intervalSec
      \<and> (\<forall>n t. fst (decide (map (snapshot sv n) ids) t) = Continue) \<longrightarrow>
      (\<exists>st'. waitForBuildEndAsync sv ids timeoutSec intervalSec st = Some (Inl TIMEOUT, st')
            \<and> nowMs st + timeoutSec * 1000 + intervalSec * 1000 < nowMs st'
            \<and> nowMs st' \<le> nowMs st + timeoutSec * 1000 + 2 * (intervalSec * 1000)
                           + int (fetchMs sv (ticks st' - 1))))
   \<and> (waitForBuildEndAsync sv ids timeoutSec intervalSec st = Some (Inl TIMEOUT, st'') \<longrightarrow>
      nowMs st + timeoutSec * 1000 < nowMs st'')"
proof (intro conjI impI)
  assume h0: "0 \<le> timeoutSec \<and> 0 < intervalSec
      \<and> (\<forall>n t. fst (decide (map (snapshot sv n) ids) t) = Continue)"
  then have h: "0 \<le> timeoutSec \<and> 0 < intervalSec \<and> (\<forall>n. verdictOf (map (snapshot sv n) ids) = Continue)"
    by (simp add: decide_verdict)
  let ?st0 = "logLine LLog (''Waiting for build'' @ (if length ids > 1 then ''s'' else '''')
                              @ '' to complete. You can press Ctrl+C to exit.'') st"
  have c: "nowMs ?st0 = nowMs st" by (simp add: logLine_def)
  from h stuck_outer[of timeoutSec intervalSec sv ids "nowMs ?st0 + timeoutSec * 1000" ?st0]
  show "\<exists>st'. waitForBuildEndAsync sv ids timeoutSec intervalSec st = Some (Inl TIMEOUT, st')
            \<and> nowMs st + timeoutSec * 1000 + intervalSec * 1000 < nowMs st'
            \<and> nowMs st' \<le> nowMs st + timeoutSec * 1000 + 2 * (intervalSec * 1000)
                           + int (fetchMs sv (ticks st' - 1))"
    unfolding waitForBuildEndAsync_def Let_def c by simp
next
  assume r: "waitForBuildEndAsync sv ids timeoutSec intervalSec st = Some (Inl TIMEOUT, st'')"
  let ?st0 = "logLine LLog (''Waiting for build'' @ (if length ids > 1 then ''s'' else '''')
                              @ '' to complete. You can press Ctrl+C to exit.'') st"
  have c: "nowMs ?st0 = nowMs st" by (simp add: logLine_def)
  from r have "waitLoop sv ids intervalSec (nowMs st + timeoutSec * 1000) (nowMs st) ?st0 = Some (Inl TIMEOUT, st'')"
    unfolding waitForBuildEndAsync_def Let_def c .
  from waitLoop_errors[OF this] c show "nowMs st + timeoutSec * 1000 < nowMs st''" by simp
qed

text \<open>
  An instance of the amended claim C5 on the same run.
\<close>

theorem timeout_when_stuck_witness:
  "(0::int) \<le> 2 \<and> (0::int) < 1
   \<and> (\<forall>n t. fst (decide (map (snapshot (svConst (snapWith InProgress None)) n) [''a'']) t) = Continue)
   \<and> (\<exists>st'. waitForBuildEndAsync (svConst (snapWith InProgress None)) [''a''] 2 1 tracker0
              = Some (Inl TIMEOUT, st')
            \<and> 3000 < nowMs st' \<and> nowMs st' \<le> 4000)"
proof -
  have s: "\<forall>n t. fst (decide (map (snapshot (svConst (snapWith InProgress None)) n) [''a'']) t) = Continue"
    by (simp add: decide_verdict verdictOf_def fault_def endedSlot_def snapshot_def tracker_fixture_defs)
  have f: "\<And>k. fetchMs (svConst (snapWith InProgress None)) k = 0" by (simp add: svConst_def)
  have n: "nowMs tracker0 = 0" by (simp add: tracker0_def)
  from timeout_when_stuck[of 2 1 "svConst (snapWith InProgress None)" "[''a'']" tracker0, THEN conjunct1] s
  show ?thesis by (simp add: f n)
qed

text \<open>
  Claim C5 as stated fails. A job that stays in progress, fetched in no time, with a timeout
  of 2 s and an interval of 1 s: the timeout is thrown at 4 s, two intervals after the
  configured timeout.
\<close>

theorem timeout_within_one_interval_counterexample:
  "map_option fst (waitForBuildEndAsync (svConst (snapWith InProgress None)) [''a''] 2 1 tracker0)
     = Some (Inl TIMEOUT)
   \<and> map_option (nowMs \<circ> snd) (waitForBuildEndAsync (svConst (snapWith InProgress None)) [''a''] 2 1 tracker0)
     = Some 4000
   \<and> \<not> (4000 \<le> nowMs tracker0 + 2 * 1000 + 1 * (1000::int))"
  by (simp add: waitLoop.simps tracker_defs tracker_fixture_defs)

lemma single_tick:
  assumes "time \<le> endTime" and "snapshot sv (ticks st) i = Some b"
  shows "waitLoop sv [i] iv endTime time st =
     (case single (Some b) (snd (fetchAll sv [i] st)) of
        (Return builds, st2) \<Rightarrow> Some (Inr builds, st2)
      | (Throw e, st2) \<Rightarrow> Some (Inl e, st2)
      | (Continue, st2) \<Rightarrow> waitLoop sv [i] iv endTime (nowMs st2) (sleepAsync (iv * 1000) st2))"
  unfolding waitLoop_tick[OF assms(1)] using assms(2) by (simp add: decide_def fetchAll_def)

lemma counts_sum:
  "countStatus New builds + countStatus InQueue builds + countStatus InProgress builds
     + countStatus Errored builds + countStatus Finished builds + length (filter uncounted builds)
   = length builds"
proof (induction builds)
  case Nil
  show ?case by (simp add: countStatus_def)
next
  case (Cons b builds)
  then show ?case
    by (cases b) (auto simp: countStatus_def uncounted_def split: BuildStatus.splits)
qed

lemma unknownCount_uncounted: "unknownCount builds = length (filter uncounted builds)"
  using counts_sum[of builds] by (simp add: unknownCount_def)

lemma unknown_slot_counted:
  assumes "k < length builds" and "builds ! k = Some b" and "status b = UnknownStatus s"
  shows "0 < unknownCount builds \<and> \<not> list_all endedSlot builds"
proof -
  have m: "Some b \<in> set builds" using assms(1,2) by (metis nth_mem)
  have "uncounted (Some b)" using assms(3) by (simp add: uncounted_def)
  with m have "filter uncounted builds \<noteq> []" by (auto simp: filter_empty_conv)
  then have "0 < unknownCount builds" by (simp add: unknownCount_uncounted)
  moreover have "\<not> endedSlot (Some b)" using assms(3) by (simp add: endedSlot_def)
  with m have "\<not> list_all endedSlot builds" by (auto simp: list_all_iff)
  ultimately show ?thesis by simp
qed

lemma join_snoc: "join sep (xs @ [x]) = (if xs = [] then x else join sep xs @ sep @ x)"
  by (induction sep xs rule: join.induct) auto

lemma present_snoc:
  "map the (filter (\<lambda>i. i \<noteq> None) (xs @ [Some u])) = map the (filter (\<lambda>i. i \<noteq> None) xs) @ [u]"
  by simp

lemma statusText_unknown:
  assumes "0 < unknownCount builds"
  shows "\<exists>pre post. statusText builds
           = pre @ ''Builds with unknown status: '' @ showNat (unknownCount builds) @ post"
proof -
  define six where "six = [counted (countStatus New builds) ''Builds created: '',
               counted (countStatus InQueue builds) ''Builds in queue: '',
               counted (countStatus InProgress builds) ''Builds in progress: '',
               counted (countStatus Canceled builds) ''Builds canceled: '',
               counted (countStatus Errored builds) ''Builds failed: '',
               counted (countStatus Finished builds) ''Builds finished: '']"
  define u where "u = ''Builds with unknown status: '' @ showNat (unknownCount builds)"
  have c: "counted (unknownCount builds) ''Builds with unknown status: '' = Some u"
    using assms by (simp add: counted_def u_def)
  have "statusText builds = join [CHR 0x09] (map the (filter (\<lambda>i. i \<noteq> None) (six @ [Some u])))"
    unfolding statusText_def Let_def unknownCount_def[symmetric] c six_def by simp
  then have "statusText builds
       = (if map the (filter (\<lambda>i. i \<noteq> None) six) = [] then u
          else join [CHR 0x09] (map the (filter (\<lambda>i. i \<noteq> None) six)) @ [CHR 0x09] @ u)"
    by (simp only: present_snoc join_snoc)
  then have "\<exists>pre. statusText builds = pre @ u" by (metis append.assoc append_Nil)
  then obtain pre where "statusText builds = pre @ u @ []" by auto
  then show ?thesis unfolding u_def by (metis append.assoc)
qed

lemma multi_continue:
  assumes "time \<le> endTime" and "length ids \<noteq> 1"
    and "\<not> list_all endedSlot (map (snapshot sv (ticks st)) ids)"
  shows "afterTick sv ids st
           = (snd (fetchAll sv ids st))\<lparr>spinnerText := statusText (map (snapshot sv (ticks st)) ids)\<rparr>"
    and "waitLoop sv ids iv endTime time st
           = waitLoop sv ids iv endTime (nowMs (afterTick sv ids st))
               (sleepAsync (iv * 1000) (afterTick sv ids st))"
proof -
  let ?b = "map (snapshot sv (ticks st)) ids"
  have f: "faultOf ?b = None" using assms(2) by (cases ids; cases "tl ids") (auto simp: faultOf_def)
  have d: "decide ?b = multiple ?b"
    using assms(2) by (cases ids; cases "tl ids") (auto simp: decide_def fun_eq_iff)
  have nf: "countStatus Finished ?b \<noteq> length ?b"
    using all_finished_ended[of ?b] assms(3) by blast
  have ne: "length (filter endedSlot ?b) \<noteq> length ?b"
    using assms(3) by (simp only: filter_all) simp
  show "afterTick sv ids st = (snd (fetchAll sv ids st))\<lparr>spinnerText := statusText ?b\<rparr>"
    using nf ne by (simp add: afterTick_def fetchAll_def d multiple_def)
  show "waitLoop sv ids iv endTime time st
           = waitLoop sv ids iv endTime (nowMs (afterTick sv ids st))
               (sleepAsync (iv * 1000) (afterTick sv ids st))"
    unfolding waitLoop_verdict[OF assms(1), of sv ids iv st] verdictOf_faultOf f using assms(3) by simp
qed

text \<open>
  Claim C3, as amended. With one job tracked, an \<^verbatim>\<open>Errored\<close> snapshot with a payload is
  reported by the spinner and returned, one without a payload throws
  \<open>Standalone build failed!\<close>, and an unknown status throws. With any other number of
  jobs the loop throws nothing but the timeout. An \<^verbatim>\<open>Errored\<close> snapshot is terminal with or
  without a payload: the loop returns the snapshots when every slot holds a terminal one,
  and otherwise sets the spinner to the status text and goes on to the next tick. A
  snapshot of unknown status is not terminal, so the loop goes on, and it is counted: the
  spinner shows \<open>Builds with unknown status:\<close> and the count.
\<close>

theorem errored_and_unknown_snapshots:
  assumes "time \<le> endTime"
  shows "(snapshot sv (ticks st) i = Some b \<and> status b = Errored \<and> error_b b \<noteq> None \<longrightarrow>
            waitLoop sv [i] iv endTime time st
              = Some (Inr [Some b], spinner_call (Fail ''Build failed'') (snd (fetchAll sv [i] st))))
       \<and> (snapshot sv (ticks st) i = Some b \<and> status b = Errored \<and> error_b b = None \<longrightarrow>
            waitLoop sv [i] iv endTime time st
              = Some (Inl (Error ''Standalone build failed!''),
                      spinner_call (Fail ''Build failed'') (snd (fetchAll sv [i] st))))
       \<and> (snapshot sv (ticks st) i = Some b \<and> status b = UnknownStatus s \<longrightarrow>
            waitLoop sv [i] iv endTime time st
              = Some (Inl (Error (''Unknown build status: '' @ s @ '' - aborting!'')),
                      spinner_call (Warn ''Unknown status'') (snd (fetchAll sv [i] st))))
       \<and> (length ids \<noteq> 1 \<and> waitLoop sv ids iv endTime time st = Some (Inl e, st') \<longrightarrow> e = TIMEOUT)
       \<and> (status b = Errored \<longrightarrow> endedSlot (Some b))
       \<and> (length ids \<noteq> 1 \<and> list_all endedSlot (map (snapshot sv (ticks st)) ids) \<longrightarrow>
            waitLoop sv ids iv endTime time st
              = Some (Inr (map (snapshot sv (ticks st)) ids), afterTick sv ids st))
       \<and> (length ids \<noteq> 1 \<and> \<not> list_all endedSlot (map (snapshot sv (ticks st)) ids) \<longrightarrow>
            afterTick sv ids st
              = (snd (fetchAll sv ids st))\<lparr>spinnerText := statusText (map (snapshot sv (ticks st)) ids)\<rparr>
            \<and> waitLoop sv ids iv endTime time st
                = waitLoop sv ids iv endTime (nowMs (afterTick sv ids st))
                    (sleepAsync (iv * 1000) (afterTick sv ids st)))
       \<and> (length ids \<noteq> 1 \<and> k < length ids \<and> snapshot sv (ticks st) (ids ! k) = Some b
            \<and> status b = UnknownStatus s \<longrightarrow>
            \<not> list_all endedSlot (map (snapshot sv (ticks st)) ids)
            \<and> 0 < unknownCount (map (snapshot sv (ticks st)) ids)
            \<and> (\<exists>pre post. spinnerText (afterTick sv ids st)
                   = pre @ ''Builds with unknown status: ''
                       @ showNat (unknownCount (map (snapshot sv (ticks st)) ids)) @ post))"
proof (intro conjI impI)
  assume "snapshot sv (ticks st) i = Some b \<and> status b = Errored \<and> error_b b \<noteq> None"
  then show "waitLoop sv [i] iv endTime time st
              = Some (Inr [Some b], spinner_call (Fail ''Build failed'') (snd (fetchAll sv [i] st)))"
    using single_tick[OF assms, of sv st i b iv] by (simp add: single_def)
next
  assume "snapshot sv (ticks st) i = Some b \<and> status b = Errored \<and> error_b b = None"
  then show "waitLoop sv [i] iv endTime time st
              = Some (Inl (Error ''Standalone build failed!''),
                      spinner_call (Fail ''Build failed'') (snd (fetchAll sv [i] st)))"
    using single_tick[OF assms, of sv st i b iv] by (simp add: single_def)
next
  assume "snapshot sv (ticks st) i = Some b \<and> status b = UnknownStatus s"
  then show "waitLoop sv [i] iv endTime time st
              = Some (Inl (Error (''Unknown build status: '' @ s @ '' - aborting!'')),
                      spinner_call (Warn ''Unknown status'') (snd (fetchAll sv [i] st)))"
    using single_tick[OF assms, of sv st i b iv] by (simp add: single_def)
next
  assume "length ids \<noteq> 1 \<and> waitLoop sv ids iv endTime time st = Some (Inl e, st')"
  then show "e = TIMEOUT" using waitLoop_errors[of sv ids iv endTime time st "(Inl e, st')"] by blast
next
  assume "status b = Errored"
  then show "endedSlot (Some b)" by (simp add: endedSlot_def)
next
  assume h: "length ids \<noteq> 1 \<and> list_all endedSlot (map (snapshot sv (ticks st)) ids)"
  then have f: "faultOf (map (snapshot sv (ticks st)) ids) = None"
    by (cases ids; cases "tl ids") (auto simp: faultOf_def)
  from f h show "waitLoop sv ids iv endTime time st
              = Some (Inr (map (snapshot sv (ticks st)) ids), afterTick sv ids st)"
    unfolding waitLoop_verdict[OF assms] verdictOf_faultOf by simp
next
  assume h: "length ids \<noteq> 1 \<and> \<not> list_all endedSlot (map (snapshot sv (ticks st)) ids)"
  then have n: "length ids \<noteq> 1" and a: "\<not> list_all endedSlot (map (snapshot sv (ticks st)) ids)"
    by simp_all
  show "afterTick sv ids st
          = (snd (fetchAll sv ids st))\<lparr>spinnerText := statusText (map (snapshot sv (ticks st)) ids)\<rparr>"
    by (rule multi_continue(1)[OF assms n a])
  show "waitLoop sv ids iv endTime time st
          = waitLoop sv ids iv endTime (nowMs (afterTick sv ids st))
              (sleepAsync (iv * 1000) (afterTick sv ids st))"
    by (rule multi_continue(2)[OF assms n a])
next
  assume h: "length ids \<noteq> 1 \<and> k < length ids \<and> snapshot sv (ticks st) (ids ! k) = Some b
              \<and> status b = UnknownStatus s"
  let ?b = "map (snapshot sv (ticks st)) ids"
  from h have n: "length ids \<noteq> 1" and k: "k < length ?b" and v: "?b ! k = Some b"
    and u: "status b = UnknownStatus s" by simp_all
  note c = unknown_slot_counted[OF k v u]
  from c show "\<not> list_all endedSlot ?b" by simp
  from c show "0 < unknownCount ?b" by simp
  have t: "spinnerText (afterTick sv ids st) = statusText ?b"
    unfolding multi_continue(1)[OF assms n conjunct2[OF c]] by simp
  from c show "\<exists>pre post. spinnerText (afterTick sv ids st)
                   = pre @ ''Builds with unknown status: '' @ showNat (unknownCount ?b) @ post"
    unfolding t using statusText_unknown[of ?b] by simp
qed

text \<open>
  Claim C3 as stated fails. With two jobs tracked, an \<^verbatim>\<open>Errored\<close> snapshot without a
  payload raises nothing, the loop returns both snapshots; and an unknown status raises
  nothing at once, the loop goes on until the timeout.
\<close>

theorem errored_and_unknown_snapshots_counterexample:
  "snapshot svMixed 0 ''a'' = Some (snapWith Errored None)
   \<and> status (snapWith Errored None) = Errored \<and> error_b (snapWith Errored None) = None
   \<and> map_option fst (waitForBuildEndAsync svMixed [''a'', ''b''] 3600 30 tracker0)
       = Some (Inr [Some (snapWith Errored None), Some (snapWith Finished None)])
   \<and> map_option fst (waitForBuildEndAsync (svConst (snapWith (UnknownStatus ''PENDING_CANCEL'') None))
                       [''a'', ''b''] 1 1 tracker0)
       = Some (Inl TIMEOUT)"
  by (simp add: waitLoop.simps tracker_defs tracker_fixture_defs showNat.simps)

text \<open>
  An instance of the amended claim C3: one job, \<^verbatim>\<open>Errored\<close> with and without a payload or
  of unknown status; two jobs, one \<^verbatim>\<open>Errored\<close> without a payload and one finished; two
  jobs of unknown status, counted and displayed while the loop goes on.
\<close>

theorem errored_and_unknown_snapshots_witness:
  "nowMs tracker0 \<le> 3600000
   \<and> snapshot (svConst (snapWith Errored (Some ''build script failed''))) (ticks tracker0) ''a''
       = Some (snapWith Errored (Some ''build script failed''))
   \<and> waitLoop (svConst (snapWith Errored (Some ''build script failed''))) [''a''] 30 3600000 (nowMs tracker0) tracker0
       = Some (Inr [Some (snapWith Errored (Some ''build script failed''))],
               spinner_call (Fail ''Build failed'')
                 (snd (fetchAll (svConst (snapWith Errored (Some ''build script failed''))) [''a''] tracker0)))
   \<and> snapshot (svConst (snapWith Errored None)) (ticks tracker0) ''a'' = Some (snapWith Errored None)
   \<and> waitLoop (svConst (snapWith Errored None)) [''a''] 30 3600000 (nowMs tracker0) tracker0
       = Some (Inl (Error ''Standalone build failed!''),
               spinner_call (Fail ''Build failed'')
                 (snd (fetchAll (svConst (snapWith Errored None)) [''a''] tracker0)))
   \<and> waitLoop (svConst (snapWith (UnknownStatus ''PENDING_CANCEL'') None)) [''a''] 30 3600000
         (nowMs tracker0) tracker0
       = Some (Inl (Error ''Unknown build status: PENDING_CANCEL - aborting!''),
               spinner_call (Warn ''Unknown status'')
                 (snd (fetchAll (svConst (snapWith (UnknownStatus ''PENDING_CANCEL'') None)) [''a''] tracker0)))
   \<and> endedSlot (Some (snapWith Errored None))
   \<and> list_all endedSlot (map (snapshot svMixed (ticks tracker0)) [''a'', ''b''])
   \<and> waitLoop svMixed [''a'', ''b''] 30 3600000 (nowMs tracker0) tracker0
       = Some (Inr [Some (snapWith Errored None), Some (snapWith Finished None)],
               afterTick svMixed [''a'', ''b''] tracker0)
   \<and> snapshot (svConst (snapWith (UnknownStatus ''PENDING_CANCEL'') None)) (ticks tracker0)
         ([''a'', ''b''] ! 1) = Some (snapWith (UnknownStatus ''PENDING_CANCEL'') None)
   \<and> unknownCount (map (snapshot (svConst (snapWith (UnknownStatus ''PENDING_CANCEL'') None)) (ticks tracker0))
                     [''a'', ''b'']) = 2
   \<and> (\<exists>pre post. spinnerText (afterTick (svConst (snapWith (UnknownStatus ''PENDING_CANCEL'') None))
                               [''a'', ''b''] tracker0)
          = pre @ ''Builds with unknown status: 2'' @ post)
   \<and> waitLoop (svConst (snapWith (UnknownStatus ''PENDING_CANCEL'') None)) [''a'', ''b''] 30 3600000
         (nowMs tracker0) tracker0
       = waitLoop (svConst (snapWith (UnknownStatus ''PENDING_CANCEL'') None)) [''a'', ''b''] 30 3600000
           (nowMs (afterTick (svConst (snapWith (UnknownStatus ''PENDING_CANCEL'') None)) [''a'', ''b''] tracker0))
           (sleepAsync (30 * 1000)
              (afterTick (svConst (snapWith (UnknownStatus ''PENDING_CANCEL'') None)) [''a'', ''b''] tracker0))"
proof -
  let ?unk = "snapWith (UnknownStatus ''PENDING_CANCEL'') None"
  have u: "status ?unk = UnknownStatus ''PENDING_CANCEL''"
    by (simp add: snapWith_def)
  have m: "map (snapshot svMixed (ticks tracker0)) [''a'', ''b'']
             = [Some (snapWith Errored None), Some (snapWith Finished None)]"
    by (simp add: snapshot_def svMixed_def)
  have l: "list_all endedSlot (map (snapshot svMixed (ticks tracker0)) [''a'', ''b''])"
    unfolding m by (simp add: endedSlot_def snapWith_def)
  have t: "nowMs tracker0 \<le> 3600000" by (simp add: tracker0_def)
  have s: "\<And>b i. snapshot (svConst b) (ticks tracker0) i = Some b"
    by (simp add: snapshot_def svConst_def)
  have p: "status (snapWith Errored (Some ''build script failed'')) = Errored
           \<and> error_b (snapWith Errored (Some ''build script failed'')) \<noteq> None"
          "status (snapWith Errored None) = Errored \<and> error_b (snapWith Errored None) = None"
    by (simp_all add: snapWith_def)
  have n: "unknownCount (map (snapshot (svConst ?unk) (ticks tracker0)) [''a'', ''b'']) = 2"
    by (simp add: unknownCount_def countStatus_def s u)
  have sh: "showNat 2 = ''2''" by code_simp
  note th = errored_and_unknown_snapshots[OF t]
  have 1: "waitLoop (svConst (snapWith Errored (Some ''build script failed''))) [''a''] 30 3600000 (nowMs tracker0) tracker0
       = Some (Inr [Some (snapWith Errored (Some ''build script failed''))],
               spinner_call (Fail ''Build failed'')
                 (snd (fetchAll (svConst (snapWith Errored (Some ''build script failed''))) [''a''] tracker0)))"
    using th[where sv = "svConst (snapWith Errored (Some ''build script failed''))" and st = tracker0
             and i = "''a''" and b = "snapWith Errored (Some ''build script failed'')" and iv = 30] s p
    by blast
  have 2: "waitLoop (svConst (snapWith Errored None)) [''a''] 30 3600000 (nowMs tracker0) tracker0
       = Some (Inl (Error ''Standalone build failed!''),
               spinner_call (Fail ''Build failed'')
                 (snd (fetchAll (svConst (snapWith Errored None)) [''a''] tracker0)))"
    using th[where sv = "svConst (snapWith Errored None)" and st = tracker0 and i = "''a''"
             and b = "snapWith Errored None" and iv = 30] s p by blast
  have 3: "waitLoop (svConst ?unk) [''a''] 30 3600000 (nowMs tracker0) tracker0
       = Some (Inl (Error ''Unknown build status: PENDING_CANCEL - aborting!''),
               spinner_call (Warn ''Unknown status'') (snd (fetchAll (svConst ?unk) [''a''] tracker0)))"
    using th[where sv = "svConst ?unk" and st = tracker0 and i = "''a''" and b = ?unk and iv = 30
             and s = "''PENDING_CANCEL''"] s u by simp
  have 4: "endedSlot (Some (snapWith Errored None))"
    using th[where b = "snapWith Errored None"] p by blast
  have 5: "waitLoop svMixed [''a'', ''b''] 30 3600000 (nowMs tracker0) tracker0
       = Some (Inr [Some (snapWith Errored None), Some (snapWith Finished None)],
               afterTick svMixed [''a'', ''b''] tracker0)"
    using th[where sv = svMixed and st = tracker0 and iv = 30 and ids = "[''a'', ''b'']"] l m by simp
  note tu = th[where sv = "svConst ?unk" and st = tracker0 and iv = 30 and ids = "[''a'', ''b'']"
               and k = 1 and b = ?unk and s = "''PENDING_CANCEL''"]
  have h: "length [''a'', ''b''] \<noteq> 1 \<and> 1 < length [''a'', ''b'']
           \<and> snapshot (svConst ?unk) (ticks tracker0) ([''a'', ''b''] ! 1) = Some ?unk
           \<and> status ?unk = UnknownStatus ''PENDING_CANCEL''"
    using s u by simp
  from tu h have 6: "\<not> list_all endedSlot (map (snapshot (svConst ?unk) (ticks tracker0)) [''a'', ''b''])"
    by blast
  from tu h have "\<exists>pre post. spinnerText (afterTick (svConst ?unk) [''a'', ''b''] tracker0)
          = pre @ ''Builds with unknown status: ''
              @ showNat (unknownCount (map (snapshot (svConst ?unk) (ticks tracker0)) [''a'', ''b''])) @ post"
    by blast
  then have 7: "\<exists>pre post. spinnerText (afterTick (svConst ?unk) [''a'', ''b''] tracker0)
          = pre @ ''Builds with unknown status: 2'' @ post"
    unfolding n sh by simp
  from tu 6 have 8: "waitLoop (svConst ?unk) [''a'', ''b''] 30 3600000 (nowMs tracker0) tracker0
       = waitLoop (svConst ?unk) [''a'', ''b''] 30 3600000
           (nowMs (afterTick (svConst ?unk) [''a'', ''b''] tracker0))
           (sleepAsync (30 * 1000) (afterTick (svConst ?unk) [''a'', ''b''] tracker0))"
    by simp
  from 1 2 3 4 5 7 8 n l s t show ?thesis by simp
qed

subsection \<open>The project upload\<close>

text \<open>
  Claim C9, as amended. When \<^verbatim>\<open>makeProjectTarballAsync\<close> returns a tarball, then on both
  exits of the upload (a key returned, or the upload failed) the file of the tarball is
  not among the files after \<^verbatim>\<open>uploadProjectAsync\<close>, the other files are as they were, and
  the result or the error of the upload is passed on. When \<^verbatim>\<open>makeProjectTarballAsync\<close>
  throws, the step has no path: it removes nothing and passes the error on, and the files
  are as \<^verbatim>\<open>makeProjectTarballAsync\<close> left them.
\<close>

theorem tarball_released_when_made:
  assumes "makeProjectTarballAsync up (tmpFiles d) = (m, fs)"
  shows "(m = Inr tb \<and> path tb \<noteq> [] \<longrightarrow>
            path tb \<notin> tmpFiles (snd (uploadProjectAsync up d))
            \<and> tmpFiles (snd (uploadProjectAsync up d)) = fs - {path tb}
            \<and> fst (uploadProjectAsync up d) = uploadAsync up (path tb))
       \<and> (m = Inl e \<longrightarrow>
            tmpFiles (snd (uploadProjectAsync up d)) = fs
            \<and> projectTarballPath (snd (uploadProjectAsync up d)) = None
            \<and> fst (uploadProjectAsync up d) = Inl e)"
proof (intro conjI impI)
  assume h: "m = Inr tb \<and> path tb \<noteq> []"
  show "path tb \<notin> tmpFiles (snd (uploadProjectAsync up d))"
    using h assms
    by (cases "uploadAsync up (path tb)")
       (simp_all add: uploadProjectAsync_def withAnalyticsAsync_def uploadInner_def logEvent_def
          truthy_def fs_remove_def)
  show "tmpFiles (snd (uploadProjectAsync up d)) = fs - {path tb}"
    using h assms
    by (cases "uploadAsync up (path tb)")
       (simp_all add: uploadProjectAsync_def withAnalyticsAsync_def uploadInner_def logEvent_def
          truthy_def fs_remove_def)
  show "fst (uploadProjectAsync up d) = uploadAsync up (path tb)"
    using h assms
    by (cases "uploadAsync up (path tb)")
       (simp_all add: uploadProjectAsync_def withAnalyticsAsync_def uploadInner_def logEvent_def
          truthy_def fs_remove_def)
next
  assume h: "m = Inl e"
  show "tmpFiles (snd (uploadProjectAsync up d)) = fs"
    using h assms
    by (simp add: uploadProjectAsync_def withAnalyticsAsync_def uploadInner_def logEvent_def truthy_def)
  show "projectTarballPath (snd (uploadProjectAsync up d)) = None"
    using h assms
    by (simp add: uploadProjectAsync_def withAnalyticsAsync_def uploadInner_def logEvent_def truthy_def)
  show "fst (uploadProjectAsync up d) = Inl e"
    using h assms
    by (simp add: uploadProjectAsync_def withAnalyticsAsync_def uploadInner_def logEvent_def truthy_def)
qed

text \<open>
  Claim C9 as stated fails on the exit by a failed creation. A
  \<^verbatim>\<open>makeProjectTarballAsync\<close> that throws after it has written the tarball leaves the file:
  \<^verbatim>\<open>projectTarballPath\<close> is still undefined in the \<^verbatim>\<open>finally\<close> block, which removes nothing.
\<close>

theorem tarball_left_after_failed_creation_counterexample:
  "path tarball0 \<notin> tmpFiles upState0
   \<and> fst (uploadProjectAsync uploaderHalfway upState0) = Inl (Error ''tar failed'')
   \<and> path tarball0 \<in> tmpFiles (snd (uploadProjectAsync uploaderHalfway upState0))"
  by (simp add: uploadProjectAsync_def withAnalyticsAsync_def uploadInner_def logEvent_def truthy_def
        uploaderHalfway_def upState0_def tarball0_def)

text \<open>
  An instance of the amended claim C9 on each exit path.
\<close>

theorem tarball_released_when_made_witness:
  "path tarball0 \<noteq> []
   \<and> fst (uploadProjectAsync (uploaderOf True True) upState0) = Inr ''bucket/key''
   \<and> tmpFiles (snd (uploadProjectAsync (uploaderOf True True) upState0)) = {''/tmp/eas/other''}
   \<and> fst (uploadProjectAsync (uploaderOf True False) upState0) = Inl (Error ''network failure'')
   \<and> tmpFiles (snd (uploadProjectAsync (uploaderOf True False) upState0)) = {''/tmp/eas/other''}
   \<and> fst (uploadProjectAsync (uploaderOf False True) upState0) = Inl (Error ''tar failed'')
   \<and> tmpFiles (snd (uploadProjectAsync (uploaderOf False True) upState0)) = {''/tmp/eas/other''}
   \<and> tmpFiles (snd (uploadProjectAsync uploaderHalfway upState0))
       = {''/tmp/eas/project.tar.gz'', ''/tmp/eas/other''}"
proof -
  have m1: "\<And>n. makeProjectTarballAsync (uploaderOf True n) (tmpFiles upState0)
              = (Inr tarball0, {''/tmp/eas/project.tar.gz'', ''/tmp/eas/other''})"
    by (simp add: uploaderOf_def upState0_def tarball0_def)
  have m2: "makeProjectTarballAsync (uploaderOf False True) (tmpFiles upState0)
              = (Inl (Error ''tar failed''), {''/tmp/eas/other''})"
    by (simp add: uploaderOf_def upState0_def)
  have m3: "makeProjectTarballAsync uploaderHalfway (tmpFiles upState0)
              = (Inl (Error ''tar failed''), {''/tmp/eas/project.tar.gz'', ''/tmp/eas/other''})"
    by (simp add: uploaderHalfway_def upState0_def tarball0_def)
  have p: "path tarball0 \<noteq> []" "path tarball0 = ''/tmp/eas/project.tar.gz''" by (simp_all add: tarball0_def)
  have u: "\<And>t n q. uploadAsync (uploaderOf t n) q = (if n then Inr ''bucket/key'' else Inl (Error ''network failure''))"
    by (simp add: uploaderOf_def)
  from tarball_released_when_made[OF m1[of True], where tb = tarball0, THEN conjunct1]
       tarball_released_when_made[OF m1[of False], where tb = tarball0, THEN conjunct1]
       tarball_released_when_made[OF m2, where e = "Error ''tar failed''", THEN conjunct2]
       tarball_released_when_made[OF m3, where e = "Error ''tar failed''", THEN conjunct2]
       p u
  show ?thesis by simp
qed

end
